theory Spec2Isabelle
  imports Complex_Main "HOL-Library.Multiset"
begin

section \<open>Drag-and-drop marker question: coordinate mapping, marker codec, drop zones\<close>

text \<open>
  A shallow embedding of \<^verbatim>\<open>question/type/ddmarker/amd/src/question.js\<close>.
  The DOM is read through jQuery in the source; here every DOM read is a field of a record
  that is passed to the function (the background image's geometry, the drag items of a
  choice, the hidden input of a choice), and every DOM write is a returned value.
\<close>

subsection \<open>Numbers\<close>

text \<open>
  A JavaScript number is modelled as a rational, an infinity or \<open>NaN\<close>; \<open>NaN\<close> is what
  \<^verbatim>\<open>Number(s)\<close> gives for a string that is no numeral and for \<^verbatim>\<open>undefined\<close>. Arithmetic
  and comparison follow IEEE 754 on these values: \<open>NaN\<close> is absorbing, every comparison
  with \<open>NaN\<close> is false, \<^verbatim>\<open>Math.max\<close>/\<^verbatim>\<open>Math.min\<close> return \<open>NaN\<close> when an argument is \<open>NaN\<close>,
  and the sum of the two infinities is \<open>NaN\<close>. Rounding to the nearest double is not
  modelled: a value is the exact rational (a double holds integers exactly up to \<open>2^53\<close>),
  and there is one zero. Pixel coordinates, offsets and sizes are integers; \<open>jsint\<close> is
  the number of an integer.
\<close>

datatype jsnum = Num rat | PosInf | NegInf | NaN

definition jsint :: "int \<Rightarrow> jsnum" where
  "jsint i = Num (of_int i)"

fun jsneg :: "jsnum \<Rightarrow> jsnum" where
  "jsneg (Num a) = Num (- a)"
| "jsneg PosInf = NegInf"
| "jsneg NegInf = PosInf"
| "jsneg NaN = NaN"

fun jsadd :: "jsnum \<Rightarrow> jsnum \<Rightarrow> jsnum" where
  "jsadd (Num a) (Num b) = Num (a + b)"
| "jsadd NaN _ = NaN"
| "jsadd _ NaN = NaN"
| "jsadd PosInf NegInf = NaN"
| "jsadd NegInf PosInf = NaN"
| "jsadd PosInf _ = PosInf"
| "jsadd _ PosInf = PosInf"
| "jsadd NegInf _ = NegInf"
| "jsadd _ NegInf = NegInf"

definition jssub :: "jsnum \<Rightarrow> jsnum \<Rightarrow> jsnum" where
  "jssub a b = jsadd a (jsneg b)"

fun jsgt :: "jsnum \<Rightarrow> jsnum \<Rightarrow> bool" where
  "jsgt (Num a) (Num b) = (a > b)"
| "jsgt NaN _ = False"
| "jsgt _ NaN = False"
| "jsgt NegInf _ = False"
| "jsgt _ PosInf = False"
| "jsgt PosInf _ = True"
| "jsgt _ NegInf = True"

fun jsle :: "jsnum \<Rightarrow> jsnum \<Rightarrow> bool" where
  "jsle (Num a) (Num b) = (a \<le> b)"
| "jsle NaN _ = False"
| "jsle _ NaN = False"
| "jsle NegInf _ = True"
| "jsle _ PosInf = True"
| "jsle PosInf _ = False"
| "jsle _ NegInf = False"

fun Math_max :: "jsnum \<Rightarrow> jsnum \<Rightarrow> jsnum" where
  "Math_max (Num a) (Num b) = Num (max a b)"
| "Math_max NaN _ = NaN"
| "Math_max _ NaN = NaN"
| "Math_max PosInf _ = PosInf"
| "Math_max _ PosInf = PosInf"
| "Math_max NegInf b = b"
| "Math_max a NegInf = a"

fun Math_min :: "jsnum \<Rightarrow> jsnum \<Rightarrow> jsnum" where
  "Math_min (Num a) (Num b) = Num (min a b)"
| "Math_min NaN _ = NaN"
| "Math_min _ NaN = NaN"
| "Math_min NegInf _ = NegInf"
| "Math_min _ NegInf = NegInf"
| "Math_min PosInf b = b"
| "Math_min a PosInf = a"

subsection \<open>The background image and the coordinate mapper\<close>

text \<open>
  What \<^verbatim>\<open>t.doc.bgImage()\<close> is asked for: \<^verbatim>\<open>offset()\<close> (relative to the document),
  \<^verbatim>\<open>position()\<close> (relative to the offset parent), \<^verbatim>\<open>width()\<close> and \<^verbatim>\<open>height()\<close>.
\<close>

record bgImage =
  offset_left :: int
  offset_top :: int
  position_left :: int
  position_top :: int
  width :: int
  height :: int

type_synonym xy = "jsnum \<times> jsnum"

text \<open>
  \<^verbatim>\<open>coordsInBgImg\<close>, \<^verbatim>\<open>convertToBgImgXY\<close> and \<^verbatim>\<open>convertToWindowXY\<close> take a two-element
  array. Where a caller passes strings (\<^verbatim>\<open>getCoords\<close>, \<^verbatim>\<open>addShape_polygon\<close>), the source
  turns them into numbers inside these functions (\<^verbatim>\<open>Number(...)\<close>, or the comparison
  operators); the model applies that conversion at the call and passes numbers.
\<close>

definition coordsInBgImg :: "bgImage \<Rightarrow> xy \<Rightarrow> bool" where
  "coordsInBgImg img coords =
     (jsgt (fst coords) (jsint 0) \<and>
      jsgt (snd coords) (jsint 0) \<and>
      jsle (fst coords) (jsint (width img)) \<and>
      jsle (snd coords) (jsint (height img)))"

definition convertToBgImgXY :: "bgImage \<Rightarrow> xy \<Rightarrow> xy" where
  "convertToBgImgXY img windowxy =
     (jssub (jssub (fst windowxy) (jsint (offset_left img))) (jsint 1),
      jssub (jssub (snd windowxy) (jsint (offset_top img))) (jsint 1))"

definition convertToWindowXY :: "bgImage \<Rightarrow> xy \<Rightarrow> xy" where
  "convertToWindowXY img bgImgXY =
     (jsadd (jsadd (fst bgImgXY) (jsint (position_left img))) (jsint 1),
      jsadd (jsadd (snd bgImgXY) (jsint (position_top img))) (jsint 1))"

definition constrainToBgImg :: "bgImage \<Rightarrow> xy \<Rightarrow> xy" where
  "constrainToBgImg img windowxy =
     (let bgImgXY = convertToBgImgXY img windowxy;
          x0 = Math_max (jsint 0) (fst bgImgXY);
          y0 = Math_max (jsint 0) (snd bgImgXY);
          x1 = Math_min (jsint (width img)) x0;
          y1 = Math_min (jsint (height img)) y0
      in convertToWindowXY img (x1, y1))"

subsection \<open>Strings\<close>

text \<open>
  \<^verbatim>\<open>String.prototype.split\<close> with a one-character separator: the pieces between the
  separators, empty pieces included, so the result is never empty.
\<close>

fun split_on :: "char \<Rightarrow> string \<Rightarrow> string list" where
  "split_on c [] = [[]]"
| "split_on c (x # xs) =
     (if x = c then [] # split_on c xs
      else (case split_on c xs of
              [] \<Rightarrow> [[x]]
            | p # ps \<Rightarrow> (x # p) # ps))"

text \<open>\<^verbatim>\<open>Array.prototype.join\<close> on an array of strings.\<close>

fun Array_join :: "string \<Rightarrow> string list \<Rightarrow> string" where
  "Array_join sep [] = []"
| "Array_join sep [x] = x"
| "Array_join sep (x # y # ys) = x @ sep @ Array_join sep (y # ys)"

definition is_digit :: "char \<Rightarrow> bool" where
  "is_digit c = (c \<in> set ''0123456789'')"

text \<open>The digits are the characters with codes 48 to 57.\<close>

definition digit_val :: "char \<Rightarrow> nat" where
  "digit_val c = of_char c - 48"

definition digit_char :: "nat \<Rightarrow> char" where
  "digit_char d = ''0123456789'' ! d"

text \<open>The value of a string of decimal digits, as \<^verbatim>\<open>Number\<close> reads it (leading zeros allowed).\<close>

definition digits_value :: "string \<Rightarrow> nat" where
  "digits_value s = foldl (\<lambda>acc c. 10 * acc + digit_val c) 0 s"

text \<open>The decimal numeral of a natural number, as \<^verbatim>\<open>Number.prototype.toString\<close> writes it.\<close>

function show_nat :: "nat \<Rightarrow> string" where
  "show_nat n = (if n < 10 then [digit_char n] else show_nat (n div 10) @ [digit_char (n mod 10)])"
  by pat_completeness auto
termination
  by (relation "measure id") auto

declare show_nat.simps [simp del]

text \<open>
  \<^verbatim>\<open>Number.prototype.toString\<close>. An integer is written as its decimal numeral
  (JavaScript changes to exponent notation from \<open>10^21\<close> on, beyond the integers a double
  holds exactly). A number that is no integer is written from its decimal digits \<open>s\<close>
  and the position \<open>n\<close> of the decimal point: with the point inside the digits when
  \<open>0 < n\<close>, as \<^verbatim>\<open>0.\<close> followed by \<open>-n\<close> zeros and the digits when \<open>-6 < n \<le> 0\<close>, and in
  exponent notation below that. \<open>decimal_places\<close> counts the digits after the point; a
  double has finitely many.
\<close>

fun decimal_places :: "nat \<Rightarrow> rat \<Rightarrow> nat" where
  "decimal_places 0 q = 0"
| "decimal_places (Suc fuel) q =
     (if of_int \<lfloor>q\<rfloor> = q then 0 else Suc (decimal_places fuel (q * 10)))"

definition frac_toString :: "rat \<Rightarrow> string" where
  "frac_toString q =
     (let j = decimal_places (nat (snd (quotient_of q))) q;
          digits = show_nat (nat \<lfloor>q * 10 ^ j\<rfloor>);
          n = int (length digits) - int j
      in if 0 < n then take (nat n) digits @ ''.'' @ drop (nat n) digits
         else if - 6 < n then ''0.'' @ replicate (nat (- n)) CHR ''0'' @ digits
         else (if length digits = 1 then digits else hd digits # CHR ''.'' # tl digits)
              @ ''e-'' @ show_nat (nat (1 - n)))"

definition nonneg_toString :: "rat \<Rightarrow> string" where
  "nonneg_toString q = (if of_int \<lfloor>q\<rfloor> = q then show_nat (nat \<lfloor>q\<rfloor>) else frac_toString q)"

fun Number_toString :: "jsnum \<Rightarrow> string" where
  "Number_toString (Num q) =
     (if q < 0 then CHR ''-'' # nonneg_toString (- q) else nonneg_toString q)"
| "Number_toString PosInf = ''Infinity''"
| "Number_toString NegInf = ''-Infinity''"
| "Number_toString NaN = ''NaN''"

text \<open>
  \<^verbatim>\<open>Number(s)\<close> for a string, by the grammar of string numeric literals. White space
  around the numeral is dropped and the empty string is \<open>0\<close>. A numeral is a binary, octal
  or hexadecimal integer with its prefix and no sign, or an optionally signed decimal:
  \<^verbatim>\<open>Infinity\<close>, or digits with an optional fraction and an optional exponent, with at
  least one digit before the exponent. Every other string is \<open>NaN\<close>. A character is a
  code unit below 256, so the white space is the tab, the line feed, the vertical tab, the
  form feed, the carriage return, the space and the no-break space.
\<close>

definition is_space :: "char \<Rightarrow> bool" where
  "is_space c =
     (c \<in> set [CHR 0x20, CHR 0x09, CHR 0x0A, CHR 0x0B, CHR 0x0C, CHR 0x0D, CHR 0xA0])"

definition trim :: "string \<Rightarrow> string" where
  "trim s = rev (dropWhile is_space (rev (dropWhile is_space s)))"

definition pow10 :: "int \<Rightarrow> rat" where
  "pow10 e = (if 0 \<le> e then 10 ^ nat e else 1 / 10 ^ nat (- e))"

text \<open>The digits of the radix \<open>r \<le> 16\<close> and the value of a string of them.\<close>

definition radix_digit_val :: "char \<Rightarrow> nat" where
  "radix_digit_val c =
     (let k = of_char c :: nat
      in if 48 \<le> k \<and> k \<le> 57 then k - 48
         else if 97 \<le> k \<and> k \<le> 102 then k - 87
         else if 65 \<le> k \<and> k \<le> 70 then k - 55
         else 16)"

definition radix_value :: "nat \<Rightarrow> string \<Rightarrow> nat" where
  "radix_value r s = foldl (\<lambda>acc c. r * acc + radix_digit_val c) 0 s"

text \<open>\<^verbatim>\<open>0b\<close>, \<^verbatim>\<open>0o\<close> and \<^verbatim>\<open>0x\<close> literals (either case of the letter).\<close>

definition radix_literal :: "string \<Rightarrow> jsnum option" where
  "radix_literal t =
     (case t of
        z # p # ds \<Rightarrow>
          (let r = (if p = CHR ''x'' \<or> p = CHR ''X'' then 16
                    else if p = CHR ''o'' \<or> p = CHR ''O'' then 8
                    else if p = CHR ''b'' \<or> p = CHR ''B'' then 2
                    else 0 :: nat)
           in if z = CHR ''0'' \<and> r \<noteq> 0 \<and> ds \<noteq> [] \<and> list_all (\<lambda>c. radix_digit_val c < r) ds
              then Some (Num (of_nat (radix_value r ds)))
              else None)
      | _ \<Rightarrow> None)"

text \<open>The exponent part, if any: \<^verbatim>\<open>e\<close> or \<^verbatim>\<open>E\<close> and an optionally signed run of digits.\<close>

definition exponent_part :: "string \<Rightarrow> int option" where
  "exponent_part t =
     (case t of
        [] \<Rightarrow> Some 0
      | c # ds \<Rightarrow>
          if c = CHR ''e'' \<or> c = CHR ''E'' then
            (let neg = (ds \<noteq> [] \<and> hd ds = CHR ''-'');
                 us = (if ds \<noteq> [] \<and> (hd ds = CHR ''-'' \<or> hd ds = CHR ''+'') then tl ds else ds)
             in if us \<noteq> [] \<and> list_all is_digit us
                then Some (if neg then - int (digits_value us) else int (digits_value us))
                else None)
          else None)"

text \<open>An unsigned decimal literal.\<close>

definition unsigned_decimal :: "string \<Rightarrow> jsnum option" where
  "unsigned_decimal t =
     (if t = ''Infinity'' then Some PosInf
      else
        (let ip = takeWhile is_digit t;
             r1 = dropWhile is_digit t;
             dot = (r1 \<noteq> [] \<and> hd r1 = CHR ''.'');
             fp = (if dot then takeWhile is_digit (tl r1) else []);
             r2 = (if dot then dropWhile is_digit (tl r1) else r1)
         in if ip = [] \<and> fp = [] then None
            else (case exponent_part r2 of
                    None \<Rightarrow> None
                  | Some e \<Rightarrow>
                      Some (Num (of_nat (digits_value (ip @ fp)) * pow10 (e - int (length fp)))))))"

definition Number_str :: "string \<Rightarrow> jsnum" where
  "Number_str s =
     (let t = trim s in
      if t = [] then Num 0
      else (case radix_literal t of
              Some v \<Rightarrow> v
            | None \<Rightarrow>
                (case (if hd t = CHR ''+'' then unsigned_decimal (tl t)
                       else if hd t = CHR ''-'' then map_option jsneg (unsigned_decimal (tl t))
                       else unsigned_decimal t) of
                   Some v \<Rightarrow> v
                 | None \<Rightarrow> NaN)))"

text \<open>\<^verbatim>\<open>Number(parts[i])\<close> for an array of strings: a missing element is \<^verbatim>\<open>undefined\<close>, which is \<open>NaN\<close>.\<close>

definition Number_at :: "string list \<Rightarrow> nat \<Rightarrow> jsnum" where
  "Number_at parts i = (if i < length parts then Number_str (parts ! i) else NaN)"

subsection \<open>Regular expressions\<close>

text \<open>
  The three patterns of the source are sequences of \<^verbatim>\<open>(\d+)\<close> groups, literal characters
  and the end anchor. \<open>rx_match\<close> matches a pattern at the start of a string and returns
  the captured groups; a group is greedy and backtracks, so it tries the longest run of
  digits first, then the shorter ones. \<open>rx_search\<close> is the unanchored match of
  \<^verbatim>\<open>String.prototype.match\<close>: the first start position at which the pattern matches.
\<close>

datatype rx = Digits | Lit char | End

fun first_some :: "'a option list \<Rightarrow> 'a option" where
  "first_some [] = None"
| "first_some (Some x # xs) = Some x"
| "first_some (None # xs) = first_some xs"

primrec rx_match :: "rx list \<Rightarrow> string \<Rightarrow> string list option" where
  "rx_match [] s = Some []"
| "rx_match (p # ps) s =
     (case p of
        Lit c \<Rightarrow> (case s of [] \<Rightarrow> None | x # xs \<Rightarrow> if x = c then rx_match ps xs else None)
      | End \<Rightarrow> (if s = [] then rx_match ps s else None)
      | Digits \<Rightarrow>
          first_some
            (map (\<lambda>k. case rx_match ps (drop k s) of
                         None \<Rightarrow> None
                       | Some caps \<Rightarrow> Some (take k s # caps))
                 (rev [1..<Suc (length (takeWhile is_digit s))])))"

fun rx_search :: "rx list \<Rightarrow> string \<Rightarrow> string list option" where
  "rx_search ps [] = rx_match ps []"
| "rx_search ps (x # xs) =
     (case rx_match ps (x # xs) of
        Some caps \<Rightarrow> Some caps
      | None \<Rightarrow> rx_search ps xs)"

declare rx_search.simps [simp del]

text \<open>\<^verbatim>\<open>/(\d+),(\d+);(\d+)/\<close>, \<^verbatim>\<open>/(\d+),(\d+);(\d+),(\d+)/\<close> and \<^verbatim>\<open>/^(\d+),(\d+)$/\<close>.\<close>

definition circle_rx :: "rx list" where
  "circle_rx = [Digits, Lit CHR '','', Digits, Lit CHR '';'', Digits]"

definition rectangle_rx :: "rx list" where
  "rectangle_rx = [Digits, Lit CHR '','', Digits, Lit CHR '';'', Digits, Lit CHR '','', Digits]"

definition polygon_point_rx :: "rx list" where
  "polygon_point_rx = [Digits, Lit CHR '','', Digits, End]"

subsection \<open>Drag items and the hidden input of a choice\<close>

text \<open>
  One \<^verbatim>\<open>span.dragitem.choiceN\<close> element: the number of its \<^verbatim>\<open>itemK\<close> class, whether it
  has the class \<^verbatim>\<open>beingdragged\<close>, its \<^verbatim>\<open>offset()\<close> and its \<^verbatim>\<open>innerText\<close>.
\<close>

record dragitem =
  itemno :: nat
  beingdragged :: bool
  drag_left :: int
  drag_top :: int
  innerText :: string

text \<open>
  What the source reads of one choice: the value of its hidden input, whether the input
  has the class \<^verbatim>\<open>infinite\<close>, the numeric suffix of its \<^verbatim>\<open>noofdragsN\<close> class
  (\<^verbatim>\<open>null\<close> when there is none), the \<^verbatim>\<open>position()\<close> of its drag home, and its drag
  items in document order.
\<close>

record choice =
  val :: string
  infinite :: bool
  noofdrags :: "nat option"
  home_left :: int
  home_top :: int
  dragitems :: "dragitem list"


definition dragHomeXY :: "choice \<Rightarrow> xy" where
  "dragHomeXY ch = (jsint (home_left ch), jsint (home_top ch - 12))"

text \<open>
  The coordinate pairs that the loop of \<^verbatim>\<open>getCoords\<close> reads from the input's value,
  before \<^verbatim>\<open>convertToWindowXY\<close> shifts them: one pair for each \<^verbatim>\<open>;\<close>-separated part,
  made of \<^verbatim>\<open>Number\<close> of its first and of its second \<^verbatim>\<open>,\<close>-separated field.
\<close>

definition coordsOfVal :: "string \<Rightarrow> xy list" where
  "coordsOfVal v =
     (if v \<noteq> [] then
        map (\<lambda>coordsstring.
               let parts = split_on CHR '','' coordsstring
               in (Number_at parts 0, Number_at parts 1))
            (split_on CHR '';'' v)
      else [])"

definition getCoords :: "bgImage \<Rightarrow> choice \<Rightarrow> xy list" where
  "getCoords img ch =
     (let nodrags = (case noofdrags ch of None \<Rightarrow> 0 | Some n \<Rightarrow> n);
          dragging = (filter beingdragged (dragitems ch) \<noteq> []);
          coords = map (convertToWindowXY img) (coordsOfVal (val ch));
          displayeddrags = length coords + (if dragging then 1 else 0)
      in if infinite ch \<or> displayeddrags < nodrags
         then coords @ [dragHomeXY ch]
         else coords)"

text \<open>
  \<^verbatim>\<open>coords.join(';')\<close> on an array of two-element arrays of numbers: \<^verbatim>\<open>join\<close> turns each
  element into a string, and the string of a two-element array is its two numerals with a
  comma between them.
\<close>

definition pair_string :: "xy \<Rightarrow> string" where
  "pair_string c = Array_join '','' [Number_toString (fst c), Number_toString (snd c)]"

definition coords_join :: "xy list \<Rightarrow> string" where
  "coords_join coords = Array_join '';'' (map pair_string coords)"





subsection \<open>Drop-zone shapes\<close>

text \<open>
  The svg elements that the handlers build, with their attributes, and \<^verbatim>\<open>t.shapes\<close>,
  indexed by drop-zone number. A handler returns the anchor of the marker text, or
  \<open>None\<close> for \<^verbatim>\<open>null\<close>, and the updated \<^verbatim>\<open>t.shapes\<close>. Halves occur in the anchors, so
  they are rationals.
\<close>

datatype shape =
    Circle int int int string \<comment> \<open>cx, cy, r, fill\<close>
  | Rect int int int int string \<comment> \<open>width, height, x, y, fill\<close>
  | Polygon string string \<comment> \<open>fill, points\<close>

type_synonym shapes = "nat \<rightharpoonup> shape"

type_synonym anchor = "rat \<times> rat"

definition addShape_circle ::
  "bgImage \<Rightarrow> shapes \<Rightarrow> nat \<Rightarrow> string \<Rightarrow> string \<Rightarrow> anchor option \<times> shapes" where
  "addShape_circle img shps dropzoneno coords colour =
     (case rx_search circle_rx coords of
        Some [p1, p2, p3] \<Rightarrow>
          (let centrex = int (digits_value p1);
               centrey = int (digits_value p2);
               radius = int (digits_value p3)
           in if coordsInBgImg img (jsint (centrex - radius), jsint (centrey - radius))
              then (Some (of_int centrex, of_int centrey),
                    shps(dropzoneno \<mapsto> Circle centrex centrey radius colour))
              else (None, shps))
      | _ \<Rightarrow> (None, shps))"

definition addShape_rectangle ::
  "bgImage \<Rightarrow> shapes \<Rightarrow> nat \<Rightarrow> string \<Rightarrow> string \<Rightarrow> anchor option \<times> shapes" where
  "addShape_rectangle img shps dropzoneno coords colour =
     (case rx_search rectangle_rx coords of
        Some [p1, p2, p3, p4] \<Rightarrow>
          (let x = int (digits_value p1);
               y = int (digits_value p2);
               width = int (digits_value p3);
               height = int (digits_value p4)
           in if coordsInBgImg img (jsint (x + width), jsint (y + height))
              then (Some (of_int x + of_int width / 2, of_int y + of_int height / 2),
                    shps(dropzoneno \<mapsto> Rect width height x y colour))
              else (None, shps))
      | _ \<Rightarrow> (None, shps))"

text \<open>
  The first loop of \<^verbatim>\<open>addShape_polygon\<close>: the array \<^verbatim>\<open>xy\<close>. The source keeps the two
  captured strings of a point and only ever uses them as numbers; the model keeps the
  numbers.
\<close>

definition polygon_step :: "bgImage \<Rightarrow> (int \<times> int) list \<Rightarrow> string \<Rightarrow> (int \<times> int) list" where
  "polygon_step img xy coordspart =
     (case rx_match polygon_point_rx coordspart of
        Some [p1, p2] \<Rightarrow>
          (if coordsInBgImg img (jsint (int (digits_value p1)), jsint (int (digits_value p2)))
           then xy @ [(int (digits_value p1), int (digits_value p2))]
           else xy)
      | _ \<Rightarrow> xy)"

definition polygon_xy :: "bgImage \<Rightarrow> string \<Rightarrow> (int \<times> int) list" where
  "polygon_xy img coords = foldl (polygon_step img) [] (split_on CHR '';'' coords)"

text \<open>The second loop: the running minimum and maximum, as \<open>(minxy, maxxy)\<close>.\<close>

definition minmax_step ::
  "(int \<times> int) \<times> (int \<times> int) \<Rightarrow> int \<times> int \<Rightarrow> (int \<times> int) \<times> (int \<times> int)" where
  "minmax_step mm p =
     (let minxy = fst mm; maxxy = snd mm
      in ((min (fst p) (fst minxy), min (snd p) (snd minxy)),
          (max (fst p) (fst maxxy), max (snd p) (snd maxxy))))"

definition addShape_polygon ::
  "bgImage \<Rightarrow> shapes \<Rightarrow> nat \<Rightarrow> string \<Rightarrow> string \<Rightarrow> anchor option \<times> shapes" where
  "addShape_polygon img shps dropzoneno coords colour =
     (let xy = polygon_xy img coords
      in if length xy > 2 then
           (let mm = foldl minmax_step ((width img, height img), (0, 0)) xy;
                minxy = fst mm; maxxy = snd mm;
                path = map (\<lambda>c. if c = CHR '','' \<or> c = CHR '';'' then CHR '' '' else c) coords
            in (Some (of_int (fst minxy + fst maxxy) / 2, of_int (snd minxy + snd maxxy) / 2),
                shps(dropzoneno \<mapsto> Polygon colour path)))
         else (None, shps))"

text \<open>
  The dispatch of \<^verbatim>\<open>addDropzone\<close>: \<^verbatim>\<open>t['addShape_' + shape]\<close> is a function for the three
  shape names and for no other string; the marker text's placement in the page is not
  modelled.
\<close>

definition addDropzone_shape ::
  "bgImage \<Rightarrow> shapes \<Rightarrow> nat \<Rightarrow> string \<Rightarrow> string \<Rightarrow> string \<Rightarrow> anchor option \<times> shapes" where
  "addDropzone_shape img shps dropzoneno shape coords colour =
     (if shape = ''circle'' then addShape_circle img shps dropzoneno coords colour
      else if shape = ''rectangle'' then addShape_rectangle img shps dropzoneno coords colour
      else if shape = ''polygon'' then addShape_polygon img shps dropzoneno coords colour
      else (None, shps))"

subsection \<open>The polygon parser in the specification's words\<close>

text \<open>
  Following the specification, for comparison with the source: \<^verbatim>\<open>parsePolygon\<close> splits on
  \<^verbatim>\<open>;\<close>, matches each segment against \<^verbatim>\<open>int,int\<close> (two non-empty runs of decimal
  digits with one comma between them), and drops the segments that do not match or whose
  point is outside the image. \<open>is_point seg a b\<close> says that the segment is \<open>a\<close>, a comma and
  \<open>b\<close>; \<open>spec_point\<close> computes the point of such a segment.
\<close>

definition is_point :: "string \<Rightarrow> string \<Rightarrow> string \<Rightarrow> bool" where
  "is_point seg a b \<longleftrightarrow>
     seg = a @ CHR '','' # b \<and> a \<noteq> [] \<and> list_all is_digit a \<and> b \<noteq> [] \<and> list_all is_digit b"

definition spec_point :: "string \<Rightarrow> (int \<times> int) option" where
  "spec_point seg =
     (case split_on CHR '','' seg of
        [a, b] \<Rightarrow>
          if a \<noteq> [] \<and> list_all is_digit a \<and> b \<noteq> [] \<and> list_all is_digit b
          then Some (int (digits_value a), int (digits_value b))
          else None
      | _ \<Rightarrow> None)"

definition in_image :: "bgImage \<Rightarrow> int \<times> int \<Rightarrow> bool" where
  "in_image img p \<longleftrightarrow> 0 < fst p \<and> fst p \<le> width img \<and> 0 < snd p \<and> snd p \<le> height img"

definition spec_parsePolygon :: "bgImage \<Rightarrow> string \<Rightarrow> (int \<times> int) list" where
  "spec_parsePolygon img s =
     filter (in_image img) (List.map_filter spec_point (split_on CHR '';'' s))"

subsection \<open>A concrete image\<close>

text \<open>A 100 by 100 image whose offset and position are both the origin.\<close>

definition img100 :: bgImage where
  "img100 = \<lparr>offset_left = 0, offset_top = 0, position_left = 0, position_top = 0,
              width = 100, height = 100\<rparr>"

section \<open>Properties\<close>

subsection \<open>The bounds test\<close>

lemma jsint_arith [simp]:
  "jsadd (jsint a) (jsint b) = jsint (a + b)"
  "jssub (jsint a) (jsint b) = jsint (a - b)"
  "Math_max (jsint a) (jsint b) = jsint (max a b)"
  "Math_min (jsint a) (jsint b) = jsint (min a b)"
  by (simp_all add: jsint_def jssub_def)

lemma jsint_compare [simp]:
  "jsgt (jsint a) (jsint b) = (a > b)"
  "jsle (jsint a) (jsint b) = (a \<le> b)"
  "(jsint a = jsint b) = (a = b)"
  "jsint a \<noteq> NaN" "jsint a \<noteq> PosInf" "jsint a \<noteq> NegInf"
  by (simp_all add: jsint_def)

lemma coordsInBgImg_jsint:
  "coordsInBgImg img (jsint a, jsint b) = (0 < a \<and> a \<le> width img \<and> 0 < b \<and> b \<le> height img)"
  by (auto simp: coordsInBgImg_def)

text \<open>
  C8. For an image-relative point \<open>(x, y)\<close>, \<open>coordsInBgImg\<close> is true if and only if
  \<open>0 < x \<le> width\<close> and \<open>0 < y \<le> height\<close>: the lower bound is strict, the upper bound is
  inclusive. It is false whenever \<open>x \<le> 0\<close>, \<open>y \<le> 0\<close>, \<open>x > width\<close> or \<open>y > height\<close>
  (and whenever a coordinate is \<open>NaN\<close> or an infinity).
\<close>

theorem coordsInBgImg_bounds:
  "coordsInBgImg img (Num x, Num y) =
     (0 < x \<and> x \<le> of_int (width img) \<and> 0 < y \<and> y \<le> of_int (height img))
   \<and> (x \<le> 0 \<or> y \<le> 0 \<or> x > of_int (width img) \<or> y > of_int (height img) \<longrightarrow>
        \<not> coordsInBgImg img (Num x, Num y))
   \<and> \<not> coordsInBgImg img (NaN, b) \<and> \<not> coordsInBgImg img (a, NaN)
   \<and> \<not> coordsInBgImg img (PosInf, b) \<and> \<not> coordsInBgImg img (a, PosInf)
   \<and> \<not> coordsInBgImg img (NegInf, b) \<and> \<not> coordsInBgImg img (a, NegInf)"
  by (cases a; cases b; auto simp: coordsInBgImg_def jsint_def)

theorem coordsInBgImg_bounds_witness:
  "coordsInBgImg img100 (Num 100, Num 1) \<and> \<not> coordsInBgImg img100 (Num 0, Num 50)
   \<and> \<not> coordsInBgImg img100 (Num 101, Num 50)"
  using coordsInBgImg_bounds [of img100 100 1] coordsInBgImg_bounds [of img100 0 50]
    coordsInBgImg_bounds [of img100 101 50]
  by (simp add: img100_def)

subsection \<open>Constraining a dragged item to the image\<close>

text \<open>
  C7, as stated: \<open>constrainToBgImg\<close> is idempotent. It is not. The function reads its
  argument relative to the document (it subtracts the image's \<open>offset\<close>) and returns a
  point relative to the offset parent (it adds the image's \<open>position\<close>), so applying it to
  its own result reads that result in the wrong coordinate system. With the image at
  offset 100 and position 0, the point 200 goes to 100 and then to 1.
\<close>

theorem constrainToBgImg_not_idempotent:
  "constrainToBgImg (img100\<lparr>offset_left := 100\<rparr>)
     (constrainToBgImg (img100\<lparr>offset_left := 100\<rparr>) (jsint 200, jsint 5))
   \<noteq> constrainToBgImg (img100\<lparr>offset_left := 100\<rparr>) (jsint 200, jsint 5)"
  by (simp add: constrainToBgImg_def convertToBgImgXY_def convertToWindowXY_def img100_def)

text \<open>
  C7, amended: when the image's offset and position are the same point (document and
  offset parent share their origin), \<open>constrainToBgImg\<close> is idempotent.
\<close>

theorem constrainToBgImg_idempotent:
  assumes "offset_left img = position_left img" and "offset_top img = position_top img"
  shows "constrainToBgImg img (constrainToBgImg img p) = constrainToBgImg img p"
proof -
  obtain a b where p: "p = (a, b)" by (cases p)
  define clamp where "clamp = (\<lambda>w off c.
      jsadd (jsadd (Math_min (jsint w) (Math_max (jsint 0) (jssub (jssub c (jsint off)) (jsint 1))))
        (jsint off)) (jsint 1))"
  have axis: "clamp w off (clamp w off c) = clamp w off c" for w off c
    unfolding clamp_def by (cases c) (auto simp: jsint_def jssub_def min_def max_def)
  have "constrainToBgImg img q =
      (clamp (width img) (position_left img) (fst q),
       clamp (height img) (position_top img) (snd q))" for q
    using assms
    by (simp add: constrainToBgImg_def convertToBgImgXY_def convertToWindowXY_def Let_def
        clamp_def)
  then show ?thesis by (simp add: axis)
qed

theorem constrainToBgImg_idempotent_witness:
  "constrainToBgImg img100 (jsint 200, jsint (- 5)) = (jsint 101, jsint 1)
   \<and> constrainToBgImg img100 (constrainToBgImg img100 (jsint 200, jsint (- 5))) = (jsint 101, jsint 1)"
  using constrainToBgImg_idempotent [of img100 "(jsint 200, jsint (- 5))"]
  by (simp add: constrainToBgImg_def convertToBgImgXY_def convertToWindowXY_def img100_def)

subsection \<open>How many drag items a choice shows\<close>

lemma length_split_on: "length (split_on c s) = Suc (count_list s c)"
  by (induction s) (auto split: list.splits)

text \<open>
  C5. \<open>getCoords\<close> returns one coordinate pair for every drag item to show except the one
  being dragged, which stays on the page. So the number of items shown is the length of
  the result plus one when an item is being dragged. It equals the number of placed
  items plus one when dragging, plus one more (the home position) exactly when the input
  is \<open>infinite\<close> or that count is below \<open>noofdrags\<close>. With \<open>infinite\<close>, nothing placed and
  nothing dragged it is 1; with \<open>noofdrags = 2\<close>, two placed and nothing dragged it is 2.
\<close>

theorem getCoords_count:
  "length (getCoords img ch) + (if list_ex beingdragged (dragitems ch) then 1 else 0) =
     (let displayed = length (coordsOfVal (val ch)) +
                      (if list_ex beingdragged (dragitems ch) then 1 else 0)
      in displayed +
         (if infinite ch \<or> displayed < (case noofdrags ch of None \<Rightarrow> 0 | Some n \<Rightarrow> n)
          then 1 else 0))
   \<and> length (getCoords img
        \<lparr>val = [], infinite = True, noofdrags = None, home_left = hl, home_top = ht,
         dragitems = []\<rparr>) = 1
   \<and> length (getCoords img
        \<lparr>val = ''10,20;30,40'', infinite = False, noofdrags = Some 2, home_left = hl,
         home_top = ht,
         dragitems = [\<lparr>itemno = 0, beingdragged = False, drag_left = 11, drag_top = 21,
                       innerText = t\<rparr>,
                      \<lparr>itemno = 1, beingdragged = False, drag_left = 31, drag_top = 41,
                       innerText = t\<rparr>]\<rparr>) = 2"
  by (simp add: getCoords_def coordsOfVal_def length_split_on Let_def list_ex_iff
      filter_empty_conv)

subsection \<open>Numerals and separators\<close>

lemma digit_cases: "d < 10 \<Longrightarrow> d = 0 \<or> d = 1 \<or> d = 2 \<or> d = 3 \<or> d = 4 \<or> d = 5 \<or> d = 6 \<or> d = 7 \<or> d = 8 \<or> d = (9::nat)"
  by arith

lemma digit_val_digit_char: "d < 10 \<Longrightarrow> digit_val (digit_char d) = d"
  by (drule digit_cases) (auto simp: digit_val_def digit_char_def)

lemma is_digit_digit_char: "d < 10 \<Longrightarrow> is_digit (digit_char d)"
  by (drule digit_cases) (auto simp: is_digit_def digit_char_def)

lemma show_nat_nonempty: "show_nat n \<noteq> []"
  by (subst show_nat.simps) simp

lemma show_nat_digits: "list_all is_digit (show_nat n)"
proof (induction n rule: show_nat.induct)
  case (1 n)
  show ?case
  proof (cases "n < 10")
    case True
    then show ?thesis by (subst show_nat.simps) (simp add: is_digit_digit_char)
  next
    case False
    with 1 show ?thesis by (subst show_nat.simps) (simp add: is_digit_digit_char)
  qed
qed

lemma digits_value_snoc: "digits_value (s @ [c]) = 10 * digits_value s + digit_val c"
  by (simp add: digits_value_def)

lemma digits_value_show_nat: "digits_value (show_nat n) = n"
proof (induction n rule: show_nat.induct)
  case (1 n)
  show ?case
  proof (cases "n < 10")
    case True
    then show ?thesis
      by (subst show_nat.simps) (simp add: digits_value_def digit_val_digit_char)
  next
    case False
    with 1 show ?thesis
      by (subst show_nat.simps) (simp add: digits_value_snoc digit_val_digit_char)
  qed
qed

lemma digit_not_space: "is_digit c \<Longrightarrow> \<not> is_space c"
  by (auto simp: is_digit_def is_space_def)

lemma dropWhile_none: "\<forall>c\<in>set s. \<not> P c \<Longrightarrow> dropWhile P s = s"
  by (cases s) auto

lemma trim_no_space: "\<forall>c\<in>set s. \<not> is_space c \<Longrightarrow> trim s = s"
  by (simp add: trim_def dropWhile_none)

lemma digit_no_radix_letter:
  "is_digit p \<Longrightarrow> p \<noteq> CHR ''x'' \<and> p \<noteq> CHR ''X'' \<and> p \<noteq> CHR ''o'' \<and> p \<noteq> CHR ''O'' \<and>
     p \<noteq> CHR ''b'' \<and> p \<noteq> CHR ''B''"
  by (auto simp: is_digit_def)

lemma radix_literal_digits:
  assumes "list_all is_digit s"
  shows "radix_literal s = None"
proof (cases s)
  case Nil
  then show ?thesis by (simp add: radix_literal_def)
next
  case (Cons z t)
  show ?thesis
  proof (cases t)
    case Nil
    with Cons show ?thesis by (simp add: radix_literal_def)
  next
    case (Cons p ds)
    with \<open>s = z # t\<close> assms have "is_digit p" by simp
    from digit_no_radix_letter [OF this] Cons \<open>s = z # t\<close> show ?thesis
      by (simp add: radix_literal_def)
  qed
qed

lemma unsigned_decimal_digits:
  assumes "s \<noteq> []" "list_all is_digit s"
  shows "unsigned_decimal s = Some (Num (of_nat (digits_value s)))"
proof -
  have inf: "s \<noteq> ''Infinity''" using assms(2) by (auto simp: is_digit_def)
  have run: "takeWhile is_digit s = s" "dropWhile is_digit s = []"
    using assms(2) by (simp_all add: list_all_iff)
  show ?thesis
    using assms(1)
    by (simp add: unsigned_decimal_def Let_def inf run exponent_part_def pow10_def)
qed

lemma Number_toString_jsint: "0 \<le> a \<Longrightarrow> Number_toString (jsint a) = show_nat (nat a)"
  by (simp add: jsint_def nonneg_toString_def)

lemma Number_str_digits:
  assumes "s \<noteq> []" "list_all is_digit s"
  shows "Number_str s = jsint (int (digits_value s))"
proof -
  have "trim s = s"
    using assms(2) by (intro trim_no_space) (auto simp: list_all_iff digit_not_space)
  moreover have "hd s \<noteq> CHR ''+''" "hd s \<noteq> CHR ''-''"
    using assms by (cases s; auto simp: is_digit_def)+
  ultimately show ?thesis
    using assms(1)
    by (simp add: Number_str_def radix_literal_digits [OF assms(2)]
        unsigned_decimal_digits [OF assms] jsint_def)
qed

lemma Number_str_show_nat: "Number_str (show_nat n) = jsint (int n)"
  by (simp add: Number_str_digits show_nat_nonempty show_nat_digits digits_value_show_nat)

lemma split_on_no_sep: "c \<notin> set a \<Longrightarrow> split_on c a = [a]"
  by (induction a) auto

lemma split_on_append: "c \<notin> set a \<Longrightarrow> split_on c (a @ c # b) = a # split_on c b"
  by (induction a) auto

lemma split_on_join:
  "parts \<noteq> [] \<Longrightarrow> \<forall>p\<in>set parts. c \<notin> set p \<Longrightarrow> split_on c (Array_join [c] parts) = parts"
  by (induction "[c]" parts rule: Array_join.induct) (auto simp: split_on_no_sep split_on_append)


lemma split_on_nonempty: "split_on c s \<noteq> []"
  by (induction s) (auto split: list.splits)

lemma digit_not_sep: "is_digit c \<Longrightarrow> c \<noteq> CHR '','' \<and> c \<noteq> CHR '';''"
  by (auto simp: is_digit_def)

lemma show_nat_no_sep: "CHR '','' \<notin> set (show_nat n) \<and> CHR '';'' \<notin> set (show_nat n)"
  using show_nat_digits [of n] digit_not_sep by (auto simp: list_all_iff)

lemma pair_string_jsint:
  "0 \<le> a \<Longrightarrow> 0 \<le> b \<Longrightarrow>
   pair_string (jsint a, jsint b) = show_nat (nat a) @ CHR '','' # show_nat (nat b)"
  by (simp add: pair_string_def Number_toString_jsint)

lemma pair_string_fields:
  assumes "0 \<le> a" "0 \<le> b"
  shows "split_on CHR '','' (pair_string (jsint a, jsint b)) = [show_nat (nat a), show_nat (nat b)]"
  using assms show_nat_no_sep
  by (simp add: pair_string_jsint split_on_append split_on_no_sep)

lemma pair_string_decode:
  assumes "0 \<le> a" "0 \<le> b"
  shows "Number_at (split_on CHR '','' (pair_string (jsint a, jsint b))) 0 = jsint a"
    and "Number_at (split_on CHR '','' (pair_string (jsint a, jsint b))) (Suc 0) = jsint b"
  using assms by (simp_all add: pair_string_fields Number_at_def Number_str_show_nat)

lemma pair_string_no_semicolon:
  "0 \<le> a \<Longrightarrow> 0 \<le> b \<Longrightarrow> CHR '';'' \<notin> set (pair_string (jsint a, jsint b))"
  using show_nat_no_sep by (simp add: pair_string_jsint)

lemma pair_string_nonempty: "0 \<le> a \<Longrightarrow> 0 \<le> b \<Longrightarrow> pair_string (jsint a, jsint b) \<noteq> []"
  by (simp add: pair_string_jsint)

lemma Array_join_nonempty: "parts \<noteq> [] \<Longrightarrow> \<forall>p\<in>set parts. p \<noteq> [] \<Longrightarrow> Array_join sep parts \<noteq> []"
  by (induction sep parts rule: Array_join.induct) auto

lemma coordsOfVal_coords_join:
  assumes "\<forall>p\<in>set points. 0 \<le> fst p \<and> 0 \<le> snd p"
  shows "coordsOfVal (coords_join (map (\<lambda>p. (jsint (fst p), jsint (snd p))) points)) =
         map (\<lambda>p. (jsint (fst p), jsint (snd p))) points"
proof (cases "points = []")
  case True
  then show ?thesis by (simp add: coords_join_def coordsOfVal_def)
next
  case False
  let ?pts = "map (\<lambda>p. (jsint (fst p), jsint (snd p))) points"
  let ?parts = "map pair_string ?pts"
  have join: "coords_join ?pts = Array_join '';'' ?parts"
    by (simp add: coords_join_def)
  have nonempty: "Array_join '';'' ?parts \<noteq> []"
    using False assms by (intro Array_join_nonempty) (auto simp: pair_string_nonempty)
  have split: "split_on CHR '';'' (Array_join '';'' ?parts) = ?parts"
    using False assms by (intro split_on_join) (auto simp: pair_string_no_semicolon)
  have "map (\<lambda>s. let parts = split_on CHR '','' s in (Number_at parts 0, Number_at parts 1)) ?parts
        = ?pts"
    using assms by (simp add: comp_def pair_string_decode Let_def)
  then show ?thesis
    using nonempty split by (simp add: join coordsOfVal_def)
qed

subsection \<open>Writing and reading the value of a choice's input\<close>

text \<open>
  C2. \<open>coords_join\<close> writes each pair as \<open>x,y\<close> with \<open>;\<close> between pairs, and the empty list
  as the empty string. For every list of integer points inside the image, reading the
  written string gives the list back: \<open>coordsOfVal\<close>, the splitting and number
  conversion of \<open>getCoords\<close>, returns the points, and \<open>getCoords\<close> returns them shifted to
  window coordinates (followed by the home position when one more item is to be shown).
\<close>

theorem coords_roundtrip:
  assumes "\<forall>p\<in>set points. coordsInBgImg img (jsint (fst p), jsint (snd p))"
  shows "coordsOfVal (coords_join (map (\<lambda>p. (jsint (fst p), jsint (snd p))) points)) =
           map (\<lambda>p. (jsint (fst p), jsint (snd p))) points
         \<and> take (length points)
             (getCoords img (ch\<lparr>val := coords_join (map (\<lambda>p. (jsint (fst p), jsint (snd p))) points)\<rparr>)) =
           map (\<lambda>p. convertToWindowXY img (jsint (fst p), jsint (snd p))) points
         \<and> coords_join [] = []
         \<and> coords_join [(jsint 10, jsint 20), (jsint 30, jsint 40)] = ''10,20;30,40''
         \<and> coordsOfVal [] = []"
proof -
  have nn: "\<forall>p\<in>set points. 0 \<le> fst p \<and> 0 \<le> snd p"
    using assms by (auto simp: coordsInBgImg_jsint)
  note rt = coordsOfVal_coords_join [OF nn]
  have g: "take (length points)
             (getCoords img (ch\<lparr>val := coords_join (map (\<lambda>p. (jsint (fst p), jsint (snd p))) points)\<rparr>)) =
           map (\<lambda>p. convertToWindowXY img (jsint (fst p), jsint (snd p))) points"
    by (simp add: getCoords_def Let_def rt comp_def)
  have e: "coords_join [(jsint 10, jsint 20), (jsint 30, jsint 40)] = ''10,20;30,40''"
    by code_simp
  show ?thesis using rt g e by (simp add: coords_join_def coordsOfVal_def)
qed

theorem coords_roundtrip_witness:
  "coordsInBgImg img100 (jsint 10, jsint 20) \<and> coordsInBgImg img100 (jsint 30, jsint 40)
   \<and> coordsOfVal ''10,20;30,40'' = [(jsint 10, jsint 20), (jsint 30, jsint 40)]"
proof -
  have b: "\<forall>p\<in>set [(10, 20), (30, 40)]. coordsInBgImg img100 (jsint (fst p), jsint (snd p))"
    by (simp add: img100_def coordsInBgImg_jsint)
  note c = coords_roundtrip [OF b, of "\<lparr>val = [], infinite = False, noofdrags = None,
      home_left = 0, home_top = 0, dragitems = []\<rparr>"]
  from c have e: "coords_join [(jsint 10, jsint 20), (jsint 30, jsint 40)] = ''10,20;30,40''"
    by simp
  from conjunct1 [OF c]
  have "coordsOfVal (coords_join [(jsint 10, jsint 20), (jsint 30, jsint 40)]) =
      [(jsint 10, jsint 20), (jsint 30, jsint 40)]"
    by simp
  then have "coordsOfVal ''10,20;30,40'' = [(jsint 10, jsint 20), (jsint 30, jsint 40)]"
    by (simp only: e)
  with b show ?thesis by simp
qed



text \<open>
  C6, as stated: a part that is not exactly two integers makes decoding fail with a
  format error, and no coordinates are produced from it. The source has no such error:
  \<open>getCoords\<close> splits and converts whatever it finds. From the value \<^verbatim>\<open>1,2,3;7\<close> it
  returns two positions, the first from the first two fields of a three-field part, the
  second with \<open>NaN\<close> for the missing field.
\<close>

theorem getCoords_malformed_no_error:
  "getCoords img100
     \<lparr>val = ''1,2,3;7'', infinite = False, noofdrags = None, home_left = 0, home_top = 0,
      dragitems = []\<rparr> = [(jsint 2, jsint 3), (jsint 8, NaN)]"
  by code_simp

lemma set_Array_join: "set (Array_join sep parts) \<subseteq> set sep \<union> (\<Union>p\<in>set parts. set p)"
  by (induction sep parts rule: Array_join.induct) auto

lemma Number_at_fields:
  assumes "fs \<noteq> []"
  shows "Number_at fs 0 = Number_str (hd fs)"
    and "Number_at fs (Suc 0) = (case tl fs of [] \<Rightarrow> NaN | f # _ \<Rightarrow> Number_str f)"
  using assms by (cases fs; cases "tl fs"; simp add: Number_at_def)+

lemma coordsOfVal_parts:
  assumes "v \<noteq> []"
  shows "coordsOfVal v =
     map (\<lambda>part. (Number_str (hd (split_on CHR '','' part)),
                   case tl (split_on CHR '','' part) of [] \<Rightarrow> NaN | f # _ \<Rightarrow> Number_str f))
       (split_on CHR '';'' v)"
  using assms by (simp add: coordsOfVal_def Let_def Number_at_fields split_on_nonempty)

lemma coordsOfVal_fields:
  assumes ne: "fieldss \<noteq> []"
    and fs: "\<forall>fs\<in>set fieldss. fs \<noteq> [] \<and> (\<forall>f\<in>set fs. CHR '','' \<notin> set f \<and> CHR '';'' \<notin> set f)"
    and v: "Array_join '';'' (map (Array_join '','') fieldss) \<noteq> []"
  shows "coordsOfVal (Array_join '';'' (map (Array_join '','') fieldss)) =
     map (\<lambda>fs. (Number_str (hd fs), case tl fs of [] \<Rightarrow> NaN | f # _ \<Rightarrow> Number_str f)) fieldss"
proof -
  have semi: "CHR '';'' \<notin> set (Array_join '','' fs)" if "fs \<in> set fieldss" for fs
    using set_Array_join [of "'',''" fs] fs that by auto
  have parts: "split_on CHR '';'' (Array_join '';'' (map (Array_join '','') fieldss)) =
      map (Array_join '','') fieldss"
    using ne semi by (intro split_on_join) auto
  have fields: "split_on CHR '','' (Array_join '','' fs) = fs" if "fs \<in> set fieldss" for fs
    using fs that by (intro split_on_join) auto
  show ?thesis
    by (simp add: coordsOfVal_parts [OF v] parts fields cong: map_cong)
qed

lemma Number_str_numerals:
  "Number_str ''0x10'' = jsint 16" "Number_str ''1e2'' = jsint 100"
  "Number_str ''1.5'' = Num (3 / 2)" "Number_str ''-Infinity'' = NegInf"
  "Number_str '' 7 '' = jsint 7" "Number_str ''12px'' = NaN" "Number_str [] = jsint 0"
  by code_simp+

lemma getCoords_numerals:
  "getCoords img100
     \<lparr>val = ''0x10,1e2'', infinite = False, noofdrags = None, home_left = 0, home_top = 0,
      dragitems = []\<rparr> = [(jsint 17, jsint 101)]"
  by code_simp

text \<open>
  C6, amended: reading a value never fails, and there is no format error. For every
  non-empty value there is exactly one pair for each \<^verbatim>\<open>;\<close>-separated part, in order: \<^verbatim>\<open>Number\<close>
  of the part's first \<^verbatim>\<open>,\<close>-separated field and \<^verbatim>\<open>Number\<close> of its second field, or \<open>NaN\<close>
  when the part has one field only; the fields after the second are ignored. Said of the
  strings as they are built: the value made of any parts, each made of any fields, reads
  as the pair of the first two fields of each part. \<open>getCoords\<close> returns these pairs,
  shifted by \<open>convertToWindowXY\<close>, before the home position it may add.
\<close>

theorem coordsOfVal_total:
  "(v \<noteq> [] \<longrightarrow>
      length (coordsOfVal v) = Suc (count_list v CHR '';'') \<and>
      coordsOfVal v =
        map (\<lambda>part. (Number_str (hd (split_on CHR '','' part)),
                      case tl (split_on CHR '','' part) of [] \<Rightarrow> NaN | f # _ \<Rightarrow> Number_str f))
          (split_on CHR '';'' v))
   \<and> (fieldss \<noteq> [] \<and>
      (\<forall>fs\<in>set fieldss. fs \<noteq> [] \<and> (\<forall>f\<in>set fs. CHR '','' \<notin> set f \<and> CHR '';'' \<notin> set f)) \<and>
      Array_join '';'' (map (Array_join '','') fieldss) \<noteq> [] \<longrightarrow>
        coordsOfVal (Array_join '';'' (map (Array_join '','') fieldss)) =
          map (\<lambda>fs. (Number_str (hd fs), case tl fs of [] \<Rightarrow> NaN | f # _ \<Rightarrow> Number_str f))
            fieldss)
   \<and> take (length (coordsOfVal (val ch))) (getCoords img ch) =
       map (convertToWindowXY img) (coordsOfVal (val ch))"
proof (intro conjI impI)
  assume "v \<noteq> []"
  then show "length (coordsOfVal v) = Suc (count_list v CHR '';'')"
    by (simp add: coordsOfVal_def length_split_on)
next
  assume "v \<noteq> []"
  then show "coordsOfVal v =
        map (\<lambda>part. (Number_str (hd (split_on CHR '','' part)),
                      case tl (split_on CHR '','' part) of [] \<Rightarrow> NaN | f # _ \<Rightarrow> Number_str f))
          (split_on CHR '';'' v)"
    by (rule coordsOfVal_parts)
next
  assume "fieldss \<noteq> [] \<and>
      (\<forall>fs\<in>set fieldss. fs \<noteq> [] \<and> (\<forall>f\<in>set fs. CHR '','' \<notin> set f \<and> CHR '';'' \<notin> set f)) \<and>
      Array_join '';'' (map (Array_join '','') fieldss) \<noteq> []"
  then show "coordsOfVal (Array_join '';'' (map (Array_join '','') fieldss)) =
          map (\<lambda>fs. (Number_str (hd fs), case tl fs of [] \<Rightarrow> NaN | f # _ \<Rightarrow> Number_str f))
            fieldss"
    by (intro coordsOfVal_fields) simp_all
next
  show "take (length (coordsOfVal (val ch))) (getCoords img ch) =
       map (convertToWindowXY img) (coordsOfVal (val ch))"
    by (simp add: getCoords_def Let_def)
qed

theorem coordsOfVal_total_witness:
  "coordsOfVal ''1,2,3;7;0x10,1e2'' =
     [(jsint 1, jsint 2), (jsint 7, NaN), (jsint 16, jsint 100)]"
proof -
  have n: "Number_str ''7'' = jsint 7" "Number_str ''1'' = jsint 1" "Number_str ''2'' = jsint 2"
    "Number_str ''0x10'' = jsint 16" "Number_str ''1e2'' = jsint 100"
    by code_simp+
  note t = coordsOfVal_total [where fieldss =
      "[[''1'', ''2'', ''3''], [''7''], [''0x10'', ''1e2'']]", THEN conjunct2, THEN conjunct1]
  from t have "coordsOfVal (Array_join '';'' (map (Array_join '','')
      [[''1'', ''2'', ''3''], [''7''], [''0x10'', ''1e2'']])) =
      [(jsint 1, jsint 2), (jsint 7, NaN), (jsint 16, jsint 100)]"
    by (simp add: n)
  then show ?thesis by simp
qed

subsection \<open>What the patterns match\<close>

lemma first_some_None: "(\<And>k. k \<in> set ks \<Longrightarrow> f k = None) \<Longrightarrow> first_some (map f ks) = None"
  by (induction ks) auto

lemma first_some_longest:
  assumes "\<And>k. 1 \<le> k \<Longrightarrow> k < n \<Longrightarrow> f k = None"
  shows "first_some (map f (rev [1..<Suc n])) = (if n = 0 then None else f n)"
proof (cases "n = 0")
  case True
  then show ?thesis by simp
next
  case False
  then have "rev [1..<Suc n] = n # rev [1..<n]" by simp
  moreover have "first_some (map f (rev [1..<n])) = None"
    using assms by (intro first_some_None) auto
  ultimately show ?thesis using False by (cases "f n") simp_all
qed

lemma digit_run_nth:
  assumes "k < length (takeWhile is_digit s)"
  shows "k < length s" and "is_digit (s ! k)"
proof -
  show "k < length s"
    using assms length_takeWhile_le [of is_digit s] by simp
  have "takeWhile is_digit s ! k \<in> set (takeWhile is_digit s)"
    using assms by simp
  then show "is_digit (s ! k)"
    using assms by (auto simp: takeWhile_nth dest: set_takeWhileD)
qed

lemma take_digit_run: "take (length (takeWhile is_digit s)) s = takeWhile is_digit s"
  by (rule takeWhile_eq_take [symmetric])

lemma drop_digit_run: "drop (length (takeWhile is_digit s)) s = dropWhile is_digit s"
  by (rule dropWhile_eq_drop [symmetric])

lemma rx_match_Digits_Lit:
  assumes "\<not> is_digit c"
  shows "rx_match (Digits # Lit c # ps) s =
     (if takeWhile is_digit s \<noteq> [] \<and> dropWhile is_digit s \<noteq> [] \<and> hd (dropWhile is_digit s) = c
      then map_option (Cons (takeWhile is_digit s)) (rx_match ps (tl (dropWhile is_digit s)))
      else None)"
proof -
  let ?n = "length (takeWhile is_digit s)"
  let ?f = "\<lambda>k. case rx_match (Lit c # ps) (drop k s) of
                   None \<Rightarrow> None
                 | Some caps \<Rightarrow> Some (take k s # caps)"
  have short: "?f k = None" if "1 \<le> k" "k < ?n" for k
  proof -
    from digit_run_nth [OF that(2)] have "k < length s" "is_digit (s ! k)" by simp_all
    then have "drop k s = s ! k # drop (Suc k) s" "s ! k \<noteq> c"
      using assms by (auto simp: Cons_nth_drop_Suc)
    then show ?thesis by simp
  qed
  have "rx_match (Digits # Lit c # ps) s = first_some (map ?f (rev [1..<Suc ?n]))"
    by simp
  also have "\<dots> = (if ?n = 0 then None else ?f ?n)"
    using short by (rule first_some_longest)
  also have "\<dots> = (if takeWhile is_digit s \<noteq> [] \<and> dropWhile is_digit s \<noteq> [] \<and>
                       hd (dropWhile is_digit s) = c
      then map_option (Cons (takeWhile is_digit s)) (rx_match ps (tl (dropWhile is_digit s)))
      else None)"
  proof (cases "dropWhile is_digit s")
    case Nil
    then show ?thesis
      by (simp add: take_digit_run drop_digit_run del: dropWhile_eq_Nil_conv)
  next
    case (Cons x xs)
    then show ?thesis
      by (cases "rx_match ps xs") (simp_all add: take_digit_run drop_digit_run)
  qed
  finally show ?thesis .
qed

lemma digit_run_all: "list_all is_digit s \<longleftrightarrow> length (takeWhile is_digit s) = length s"
proof
  assume "list_all is_digit s"
  then have "takeWhile is_digit s = s" by (simp add: list_all_iff)
  then show "length (takeWhile is_digit s) = length s" by (rule arg_cong)
next
  assume len: "length (takeWhile is_digit s) = length s"
  have "takeWhile is_digit s = take (length (takeWhile is_digit s)) s"
    by (rule takeWhile_eq_take)
  also have "\<dots> = take (length s) s" by (simp only: len)
  also have "\<dots> = s" by simp
  finally have "\<forall>x\<in>set s. is_digit x"
    by (rule takeWhile_eq_all_conv [THEN iffD1])
  then show "list_all is_digit s"
    by (simp add: list_all_iff)
qed

lemma rx_match_Digits_End:
  "rx_match [Digits, End] s = (if s \<noteq> [] \<and> list_all is_digit s then Some [s] else None)"
proof -
  let ?n = "length (takeWhile is_digit s)"
  let ?f = "\<lambda>k. case rx_match [End] (drop k s) of
                   None \<Rightarrow> None
                 | Some caps \<Rightarrow> Some (take k s # caps)"
  have short: "?f k = None" if "1 \<le> k" "k < ?n" for k
    using digit_run_nth(1) [OF that(2)] by simp
  have "rx_match [Digits, End] s = first_some (map ?f (rev [1..<Suc ?n]))"
    by simp
  also have "\<dots> = (if ?n = 0 then None else ?f ?n)"
    using short by (rule first_some_longest)
  also have "\<dots> = (if s \<noteq> [] \<and> list_all is_digit s then Some [s] else None)"
  proof (cases "?n = length s")
    case True
    then have "list_all is_digit s" by (simp add: digit_run_all)
    with True show ?thesis by simp
  next
    case False
    then have "?n < length s"
      using length_takeWhile_le [of is_digit s] by simp
    with False show ?thesis by (simp add: digit_run_all)
  qed
  finally show ?thesis .
qed

lemma rx_match_Digits_last:
  "rx_match [Digits] s =
     (if takeWhile is_digit s \<noteq> [] then Some [takeWhile is_digit s] else None)"
proof (cases "takeWhile is_digit s = []")
  case True
  then show ?thesis by simp
next
  case False
  then obtain m where m: "length (takeWhile is_digit s) = Suc m"
    by (cases "takeWhile is_digit s") auto
  have "take (Suc m) s = takeWhile is_digit s"
    using take_digit_run [of s] by (simp only: m)
  with False show ?thesis by (simp add: m)
qed

lemma sep_not_digit: "\<not> is_digit CHR '',''" "\<not> is_digit CHR '';''"
  by (simp_all add: is_digit_def)

lemma digit_run_prefix:
  assumes "list_all is_digit a" "rest = [] \<or> \<not> is_digit (hd rest)"
  shows "takeWhile is_digit (a @ rest) = a" and "dropWhile is_digit (a @ rest) = rest"
proof -
  have a: "\<forall>x\<in>set a. is_digit x" using assms(1) by (simp add: list_all_iff)
  have r: "takeWhile is_digit rest = []" "dropWhile is_digit rest = rest"
    using assms(2) by (cases rest; simp)+
  show "takeWhile is_digit (a @ rest) = a"
    using a r by (simp add: takeWhile_append2)
  show "dropWhile is_digit (a @ rest) = rest"
    using a r by (simp add: dropWhile_append2)
qed

lemma rx_match_Digits_no_digit: "\<not> is_digit x \<Longrightarrow> rx_match (Digits # ps) (x # xs) = None"
  by simp

lemma rx_search_hit: "rx_match ps s = Some caps \<Longrightarrow> rx_search ps s = Some caps"
  by (cases s) (simp_all add: rx_search.simps)

lemma rx_search_skip:
  "\<forall>x\<in>set junk. \<not> is_digit x \<Longrightarrow> rx_search (Digits # ps) (junk @ s) = rx_search (Digits # ps) s"
  by (induction junk) (simp_all add: rx_search.simps del: rx_match.simps add: rx_match_Digits_no_digit)

lemma digit_run_sep:
  assumes "list_all is_digit a" "\<not> is_digit c"
  shows "takeWhile is_digit (a @ c # t) = a" and "dropWhile is_digit (a @ c # t) = c # t"
  using digit_run_prefix [OF assms(1), of "c # t"] assms(2) by simp_all

lemma rx_match_Digits_Lit_exact:
  assumes "a \<noteq> []" "list_all is_digit a" "\<not> is_digit c"
  shows "rx_match (Digits # Lit c # ps) (a @ c # t) = map_option (Cons a) (rx_match ps t)"
  using assms(1)
  by (simp only: rx_match_Digits_Lit [OF assms(3)] digit_run_sep [OF assms(2,3)]) simp

lemma rx_match_Digits_last_exact:
  assumes "a \<noteq> []" "list_all is_digit a" "rest = [] \<or> \<not> is_digit (hd rest)"
  shows "rx_match [Digits] (a @ rest) = Some [a]"
  using assms(1)
  by (simp only: rx_match_Digits_last digit_run_prefix [OF assms(2,3)]) simp

lemma circle_rx_match:
  assumes "a \<noteq> []" "list_all is_digit a" "b \<noteq> []" "list_all is_digit b"
    "c \<noteq> []" "list_all is_digit c" "rest = [] \<or> \<not> is_digit (hd rest)"
  shows "rx_match circle_rx (a @ CHR '','' # b @ CHR '';'' # c @ rest) = Some [a, b, c]"
  unfolding circle_rx_def
  by (simp only: rx_match_Digits_Lit_exact [OF assms(1,2) sep_not_digit(1)]
      rx_match_Digits_Lit_exact [OF assms(3,4) sep_not_digit(2)]
      rx_match_Digits_last_exact [OF assms(5,6,7)] option.map)

lemma rectangle_rx_match:
  assumes "a \<noteq> []" "list_all is_digit a" "b \<noteq> []" "list_all is_digit b"
    "c \<noteq> []" "list_all is_digit c" "d \<noteq> []" "list_all is_digit d"
    "rest = [] \<or> \<not> is_digit (hd rest)"
  shows "rx_match rectangle_rx (a @ CHR '','' # b @ CHR '';'' # c @ CHR '','' # d @ rest) =
           Some [a, b, c, d]"
  unfolding rectangle_rx_def
  by (simp only: rx_match_Digits_Lit_exact [OF assms(1,2) sep_not_digit(1)]
      rx_match_Digits_Lit_exact [OF assms(3,4) sep_not_digit(2)]
      rx_match_Digits_Lit_exact [OF assms(5,6) sep_not_digit(1)]
      rx_match_Digits_last_exact [OF assms(7,8,9)] option.map)

lemma circle_rx_search:
  assumes "a \<noteq> []" "list_all is_digit a" "b \<noteq> []" "list_all is_digit b"
    "c \<noteq> []" "list_all is_digit c" "rest = [] \<or> \<not> is_digit (hd rest)"
    "\<forall>x\<in>set junk. \<not> is_digit x"
  shows "rx_search circle_rx (junk @ a @ CHR '','' # b @ CHR '';'' # c @ rest) = Some [a, b, c]"
proof -
  have "rx_search circle_rx (junk @ a @ CHR '','' # b @ CHR '';'' # c @ rest) =
        rx_search circle_rx (a @ CHR '','' # b @ CHR '';'' # c @ rest)"
    unfolding circle_rx_def using assms(8) by (rule rx_search_skip)
  also have "\<dots> = Some [a, b, c]"
    by (rule rx_search_hit [OF circle_rx_match [OF assms(1-7)]])
  finally show ?thesis .
qed

lemma rectangle_rx_search:
  assumes "a \<noteq> []" "list_all is_digit a" "b \<noteq> []" "list_all is_digit b"
    "c \<noteq> []" "list_all is_digit c" "d \<noteq> []" "list_all is_digit d"
    "rest = [] \<or> \<not> is_digit (hd rest)"
    "\<forall>x\<in>set junk. \<not> is_digit x"
  shows "rx_search rectangle_rx (junk @ a @ CHR '','' # b @ CHR '';'' # c @ CHR '','' # d @ rest) =
           Some [a, b, c, d]"
proof -
  have "rx_search rectangle_rx (junk @ a @ CHR '','' # b @ CHR '';'' # c @ CHR '','' # d @ rest) =
        rx_search rectangle_rx (a @ CHR '','' # b @ CHR '';'' # c @ CHR '','' # d @ rest)"
    unfolding rectangle_rx_def using assms(10) by (rule rx_search_skip)
  also have "\<dots> = Some [a, b, c, d]"
    by (rule rx_search_hit [OF rectangle_rx_match [OF assms(1-9)]])
  finally show ?thesis .
qed

subsection \<open>Circle and rectangle geometry is matched anywhere in the string\<close>

lemma addShape_circle_embedded:
  assumes "a \<noteq> []" "list_all is_digit a" "b \<noteq> []" "list_all is_digit b"
    "c \<noteq> []" "list_all is_digit c" "rest = [] \<or> \<not> is_digit (hd rest)"
    "\<forall>x\<in>set junk. \<not> is_digit x"
  shows "addShape_circle img shps n (junk @ a @ CHR '','' # b @ CHR '';'' # c @ rest) colour =
         addShape_circle img shps n (a @ CHR '','' # b @ CHR '';'' # c) colour"
proof -
  have "rx_search circle_rx (junk @ a @ CHR '','' # b @ CHR '';'' # c @ rest) = Some [a, b, c]"
    by (rule circle_rx_search [OF assms])
  moreover have "rx_search circle_rx ([] @ a @ CHR '','' # b @ CHR '';'' # c @ []) = Some [a, b, c]"
    by (rule circle_rx_search [OF assms(1-6)]) simp_all
  ultimately show ?thesis by (simp add: addShape_circle_def)
qed

lemma addShape_rectangle_embedded:
  assumes "a \<noteq> []" "list_all is_digit a" "b \<noteq> []" "list_all is_digit b"
    "c \<noteq> []" "list_all is_digit c" "d \<noteq> []" "list_all is_digit d"
    "rest = [] \<or> \<not> is_digit (hd rest)"
    "\<forall>x\<in>set junk. \<not> is_digit x"
  shows "addShape_rectangle img shps n
           (junk @ a @ CHR '','' # b @ CHR '';'' # c @ CHR '','' # d @ rest) colour =
         addShape_rectangle img shps n (a @ CHR '','' # b @ CHR '';'' # c @ CHR '','' # d) colour"
proof -
  have "rx_search rectangle_rx (junk @ a @ CHR '','' # b @ CHR '';'' # c @ CHR '','' # d @ rest) =
          Some [a, b, c, d]"
    by (rule rectangle_rx_search [OF assms])
  moreover have "rx_search rectangle_rx ([] @ a @ CHR '','' # b @ CHR '';'' # c @ CHR '','' # d @ []) =
          Some [a, b, c, d]"
    by (rule rectangle_rx_search [OF assms(1-8)]) simp_all
  ultimately show ?thesis by (simp add: addShape_rectangle_def)
qed

text \<open>
  C10. The circle and rectangle patterns are not anchored. Characters without digits
  before the geometry, and anything after it that does not continue its last number,
  are ignored: the handler gives the result it gives for the geometry alone. So a string
  that is not of the documented form is parsed from its first embedded match: the
  rectangle string \<^verbatim>\<open>10,10;5,7\<close> is a circle of radius 5 for the circle handler, and
  text around a geometry does not make the handler return \<^verbatim>\<open>null\<close>.
\<close>

theorem addShape_unanchored:
  "(a \<noteq> [] \<and> list_all is_digit a \<and> b \<noteq> [] \<and> list_all is_digit b \<and>
    c \<noteq> [] \<and> list_all is_digit c \<and> (rest = [] \<or> \<not> is_digit (hd rest)) \<and>
    (\<forall>x\<in>set junk. \<not> is_digit x) \<longrightarrow>
      addShape_circle img shps n (junk @ a @ CHR '','' # b @ CHR '';'' # c @ rest) colour =
      addShape_circle img shps n (a @ CHR '','' # b @ CHR '';'' # c) colour)
   \<and> (a \<noteq> [] \<and> list_all is_digit a \<and> b \<noteq> [] \<and> list_all is_digit b \<and>
    c \<noteq> [] \<and> list_all is_digit c \<and> d \<noteq> [] \<and> list_all is_digit d \<and>
    (rest = [] \<or> \<not> is_digit (hd rest)) \<and> (\<forall>x\<in>set junk. \<not> is_digit x) \<longrightarrow>
      addShape_rectangle img shps n
        (junk @ a @ CHR '','' # b @ CHR '';'' # c @ CHR '','' # d @ rest) colour =
      addShape_rectangle img shps n (a @ CHR '','' # b @ CHR '';'' # c @ CHR '','' # d) colour)
   \<and> addShape_circle img100 shps n ''10,10;5,7'' colour =
     (Some (10, 10), shps(n \<mapsto> Circle 10 10 5 colour))
   \<and> addShape_circle img100 shps n ''at 50,50;20px'' colour =
     (Some (50, 50), shps(n \<mapsto> Circle 50 50 20 colour))
   \<and> addShape_rectangle img100 shps n ''10,10;5,7abc'' colour =
     (Some (25 / 2, 27 / 2), shps(n \<mapsto> Rect 5 7 10 10 colour))"
proof -
  have m: "rx_search circle_rx ''10,10;5,7'' = Some [''10'', ''10'', ''5'']"
    "rx_search circle_rx ''at 50,50;20px'' = Some [''50'', ''50'', ''20'']"
    "rx_search rectangle_rx ''10,10;5,7abc'' = Some [''10'', ''10'', ''5'', ''7'']"
    by code_simp+
  have v: "digits_value ''10'' = 10" "digits_value ''5'' = 5" "digits_value ''7'' = 7"
    "digits_value ''50'' = 50" "digits_value ''20'' = 20"
    by code_simp+
  have conc: "addShape_circle img100 shps n ''10,10;5,7'' colour =
     (Some (10, 10), shps(n \<mapsto> Circle 10 10 5 colour))"
    "addShape_circle img100 shps n ''at 50,50;20px'' colour =
     (Some (50, 50), shps(n \<mapsto> Circle 50 50 20 colour))"
    "addShape_rectangle img100 shps n ''10,10;5,7abc'' colour =
     (Some (25 / 2, 27 / 2), shps(n \<mapsto> Rect 5 7 10 10 colour))"
    by (simp_all add: addShape_circle_def addShape_rectangle_def m v coordsInBgImg_jsint img100_def)
  show ?thesis
    using addShape_circle_embedded [of a b c rest junk img shps n colour]
      addShape_rectangle_embedded [of a b c d rest junk img shps n colour] conc
    by blast
qed

theorem addShape_unanchored_witness:
  "fst (addShape_circle img100 Map.empty 0 ''at 50,50;20px'' ''#FFFFFF'') =
     fst (addShape_circle img100 Map.empty 0 ''50,50;20'' ''#FFFFFF'')
   \<and> fst (addShape_rectangle img100 Map.empty 0 ''10,10;5,7abc'' ''#FFFFFF'') =
     fst (addShape_rectangle img100 Map.empty 0 ''10,10;5,7'' ''#FFFFFF'')"
proof -
  have dg: "list_all is_digit ''50''" "list_all is_digit ''20''" "list_all is_digit ''10''"
    "list_all is_digit ''5''" "list_all is_digit ''7''"
    "\<forall>x\<in>set ''at ''. \<not> is_digit x" "\<not> is_digit (hd ''px'')" "\<not> is_digit (hd ''abc'')"
    by (simp_all add: is_digit_def)
  note t1 = addShape_unanchored [of "''50''" "''50''" "''20''" "''px''" "''at ''" img100
      Map.empty 0 "''#FFFFFF''" "''1''", THEN conjunct1]
  note t2 = addShape_unanchored [of "''10''" "''10''" "''5''" "''abc''" "[]" img100
      Map.empty 0 "''#FFFFFF''" "''7''", THEN conjunct2, THEN conjunct1]
  from t1 dg have 1: "addShape_circle img100 Map.empty 0 ''at 50,50;20px'' ''#FFFFFF'' =
      addShape_circle img100 Map.empty 0 ''50,50;20'' ''#FFFFFF''"
    by simp
  from t2 dg have 2: "addShape_rectangle img100 Map.empty 0 ''10,10;5,7abc'' ''#FFFFFF'' =
      addShape_rectangle img100 Map.empty 0 ''10,10;5,7'' ''#FFFFFF''"
    by simp
  show ?thesis by (simp only: 1 2)
qed

subsection \<open>The polygon handler\<close>

lemma Array_join_Cons: "ps \<noteq> [] \<Longrightarrow> Array_join sep (p # ps) = p @ sep @ Array_join sep ps"
  by (cases ps) simp_all

lemma Array_join_split_on: "Array_join [c] (split_on c s) = s"
proof (induction s)
  case Nil
  show ?case by simp
next
  case (Cons x xs)
  show ?case
  proof (cases "x = c")
    case True
    with Cons show ?thesis by (simp add: Array_join_Cons split_on_nonempty)
  next
    case False
    obtain p ps where sp: "split_on c xs = p # ps"
      using split_on_nonempty [of c xs] by (cases "split_on c xs") auto
    with Cons False show ?thesis by (cases ps) simp_all
  qed
qed

lemma split_on_two: "split_on c s = [a, b] \<Longrightarrow> s = a @ c # b"
  using Array_join_split_on [of c s] by simp

lemma digits_no_comma: "list_all is_digit a \<Longrightarrow> CHR '','' \<notin> set a"
  using digit_not_sep by (auto simp: list_all_iff)

lemma is_point_match:
  assumes "is_point seg a b"
  shows "rx_match polygon_point_rx seg = Some [a, b]"
proof -
  from assms have seg: "seg = a @ CHR '','' # b" and a: "a \<noteq> []" "list_all is_digit a"
    and b: "b \<noteq> []" "list_all is_digit b"
    by (simp_all add: is_point_def)
  show ?thesis
    unfolding polygon_point_rx_def seg using b
    by (simp only: rx_match_Digits_Lit_exact [OF a sep_not_digit(1)] rx_match_Digits_End) simp
qed

lemma match_is_point:
  assumes "rx_match polygon_point_rx seg = Some caps"
  shows "\<exists>a b. caps = [a, b] \<and> is_point seg a b"
proof -
  let ?A = "takeWhile is_digit seg" and ?R = "dropWhile is_digit seg"
  have m: "rx_match polygon_point_rx seg =
      (if ?A \<noteq> [] \<and> ?R \<noteq> [] \<and> hd ?R = CHR '',''
       then map_option (Cons ?A) (if tl ?R \<noteq> [] \<and> list_all is_digit (tl ?R) then Some [tl ?R] else None)
       else None)"
    unfolding polygon_point_rx_def
    by (simp only: rx_match_Digits_Lit [OF sep_not_digit(1)] rx_match_Digits_End)
  from assms m have c: "?A \<noteq> []" "?R \<noteq> []" "hd ?R = CHR '',''" "tl ?R \<noteq> []"
    "list_all is_digit (tl ?R)" "caps = [?A, tl ?R]"
    by (auto split: if_splits)
  have "seg = ?A @ ?R" by simp
  also have "?R = CHR '','' # tl ?R" using c(2,3) by (cases ?R) simp_all
  finally have "seg = ?A @ CHR '','' # tl ?R" .
  moreover have "list_all is_digit ?A"
    by (auto simp: list_all_iff dest: set_takeWhileD)
  ultimately have "is_point seg ?A (tl ?R)"
    using c by (simp add: is_point_def)
  with c(6) show ?thesis by blast
qed

lemma is_point_spec:
  assumes "is_point seg a b"
  shows "spec_point seg = Some (int (digits_value a), int (digits_value b))"
proof -
  from assms have seg: "seg = a @ CHR '','' # b" and a: "a \<noteq> []" "list_all is_digit a"
    and b: "b \<noteq> []" "list_all is_digit b"
    by (simp_all add: is_point_def)
  have "split_on CHR '','' seg = [a, b]"
    unfolding seg using digits_no_comma [OF a(2)] digits_no_comma [OF b(2)]
    by (simp add: split_on_append split_on_no_sep)
  then show ?thesis using a b by (simp add: spec_point_def)
qed

lemma spec_is_point:
  assumes "spec_point seg = Some p"
  shows "\<exists>a b. is_point seg a b \<and> p = (int (digits_value a), int (digits_value b))"
proof -
  from assms obtain a b where sp: "split_on CHR '','' seg = [a, b]"
    and d: "a \<noteq> []" "list_all is_digit a" "b \<noteq> []" "list_all is_digit b"
    and p: "p = (int (digits_value a), int (digits_value b))"
    by (auto simp: spec_point_def split: list.splits if_splits)
  from split_on_two [OF sp] d have "is_point seg a b" by (simp add: is_point_def)
  with p show ?thesis by blast
qed

lemma polygon_step_spec:
  "polygon_step img xy seg =
     xy @ (case spec_point seg of None \<Rightarrow> [] | Some p \<Rightarrow> if in_image img p then [p] else [])"
proof (cases "rx_match polygon_point_rx seg")
  case None
  have "spec_point seg = None"
  proof (cases "spec_point seg")
    case (Some p)
    then obtain a b where "is_point seg a b" using spec_is_point by blast
    from is_point_match [OF this] None show ?thesis by simp
  qed simp
  with None show ?thesis by (simp add: polygon_step_def)
next
  case (Some caps)
  then obtain a b where caps: "caps = [a, b]" and pt: "is_point seg a b"
    using match_is_point by blast
  show ?thesis
    using Some caps is_point_spec [OF pt]
    by (simp add: polygon_step_def coordsInBgImg_jsint in_image_def)
qed

lemma foldl_polygon_step:
  "foldl (polygon_step img) acc segs =
     acc @ filter (in_image img) (List.map_filter spec_point segs)"
  by (induction segs arbitrary: acc)
     (auto simp: polygon_step_spec List.map_filter_simps split: option.splits)

lemma polygon_xy_spec: "polygon_xy img coords = spec_parsePolygon img coords"
  by (simp add: polygon_xy_def spec_parsePolygon_def foldl_polygon_step)

lemma polygon_xy_in_image: "p \<in> set (polygon_xy img coords) \<Longrightarrow> in_image img p"
  by (simp add: polygon_xy_def foldl_polygon_step)

lemma foldl_minmax_step:
  "foldl minmax_step ((a, b), (c, d)) xy =
     ((fold min (map fst xy) a, fold min (map snd xy) b),
      (fold max (map fst xy) c, fold max (map snd xy) d))"
  by (induction xy arbitrary: a b c d) (simp_all add: minmax_step_def)

lemma fold_min_bounded:
  fixes w :: int
  assumes "xs \<noteq> []" "\<forall>x\<in>set xs. x \<le> w"
  shows "fold min xs w = Min (set xs)"
proof -
  have "fold min xs w = Min (set (w # xs))" by (simp only: Min.set_eq_fold)
  also have "\<dots> = min w (Min (set xs))" using assms(1) by simp
  also have "\<dots> = Min (set xs)"
  proof -
    have "Min (set xs) \<in> set xs" using assms(1) by (intro Min_in) simp_all
    with assms(2) have "Min (set xs) \<le> w" by blast
    then show ?thesis by (simp add: min_absorb2)
  qed
  finally show ?thesis .
qed

lemma fold_max_bounded:
  fixes w :: int
  assumes "xs \<noteq> []" "\<forall>x\<in>set xs. w \<le> x"
  shows "fold max xs w = Max (set xs)"
proof -
  have "fold max xs w = Max (set (w # xs))" by (simp only: Max.set_eq_fold)
  also have "\<dots> = max w (Max (set xs))" using assms(1) by simp
  also have "\<dots> = Max (set xs)"
  proof -
    have "Max (set xs) \<in> set xs" using assms(1) by (intro Max_in) simp_all
    with assms(2) have "w \<le> Max (set xs)" by blast
    then show ?thesis by (simp add: max_absorb2)
  qed
  finally show ?thesis .
qed

lemma polygon_minmax:
  assumes "xy \<noteq> []" "\<forall>p\<in>set xy. in_image img p"
  shows "foldl minmax_step ((width img, height img), (0, 0)) xy =
     ((Min (fst ` set xy), Min (snd ` set xy)), (Max (fst ` set xy), Max (snd ` set xy)))"
proof -
  have "fold min (map fst xy) (width img) = Min (set (map fst xy))"
    using assms by (intro fold_min_bounded) (auto simp: in_image_def)
  moreover have "fold min (map snd xy) (height img) = Min (set (map snd xy))"
    using assms by (intro fold_min_bounded) (auto simp: in_image_def)
  moreover have "fold max (map fst xy) 0 = Max (set (map fst xy))"
    using assms by (intro fold_max_bounded) (auto simp: in_image_def intro: less_imp_le)
  moreover have "fold max (map snd xy) 0 = Max (set (map snd xy))"
    using assms by (intro fold_max_bounded) (auto simp: in_image_def intro: less_imp_le)
  ultimately show ?thesis by (simp add: foldl_minmax_step)
qed

lemma addShape_polygon_Some:
  assumes "addShape_polygon img shps n coords colour = (Some a, shps')"
  shows "shps' = shps(n \<mapsto> Polygon colour
             (map (\<lambda>c. if c = CHR '','' \<or> c = CHR '';'' then CHR '' '' else c) coords))"
    and "a = (of_int (Min (fst ` set (polygon_xy img coords)) + Max (fst ` set (polygon_xy img coords))) / 2,
              of_int (Min (snd ` set (polygon_xy img coords)) + Max (snd ` set (polygon_xy img coords))) / 2)"
    and "3 \<le> length (polygon_xy img coords)"
proof -
  let ?xy = "polygon_xy img coords"
  from assms have len: "2 < length ?xy"
    by (auto simp: addShape_polygon_def Let_def split: if_splits)
  then show "3 \<le> length ?xy" by simp
  from len have ne: "?xy \<noteq> []" by auto
  have mm: "foldl minmax_step ((width img, height img), (0, 0)) ?xy =
     ((Min (fst ` set ?xy), Min (snd ` set ?xy)), (Max (fst ` set ?xy), Max (snd ` set ?xy)))"
    using ne polygon_xy_in_image by (intro polygon_minmax) auto
  from assms len show "shps' = shps(n \<mapsto> Polygon colour
             (map (\<lambda>c. if c = CHR '','' \<or> c = CHR '';'' then CHR '' '' else c) coords))"
    by (simp add: addShape_polygon_def Let_def)
  from assms len show "a = (of_int (Min (fst ` set ?xy) + Max (fst ` set ?xy)) / 2,
              of_int (Min (snd ` set ?xy) + Max (snd ` set ?xy)) / 2)"
    by (simp add: addShape_polygon_def Let_def mm)
qed

lemma addShape_polygon_None:
  "length (polygon_xy img coords) < 3 \<Longrightarrow> addShape_polygon img shps n coords colour = (None, shps)"
  by (simp add: addShape_polygon_def Let_def)

lemma polygon_xy_scenario:
  "polygon_xy img100 ''10,10;200,10;50,90'' = [(10, 10), (50, 90)]"
  "polygon_xy img100 ''10,10;200,10;50,90;20,35'' = [(10, 10), (50, 90), (20, 35)]"
  by code_simp+

lemma img100_size: "width img100 = 100" "height img100 = 100"
  by (simp_all add: img100_def)

lemma addShape_polygon_scenario:
  "addShape_polygon img100 shps n ''10,10;200,10;50,90'' colour = (None, shps)"
  "addShape_polygon img100 shps n ''10,10;200,10;50,90;20,35'' colour =
     (Some (30, 50), shps(n \<mapsto> Polygon colour ''10 10 200 10 50 90 20 35''))"
  by (simp_all add: addShape_polygon_def polygon_xy_scenario Let_def minmax_step_def img100_size)

text \<open>
  C4. The first loop of \<open>addShape_polygon\<close> splits the geometry on \<^verbatim>\<open>;\<close> and keeps, in
  order, the points of the segments that match \<^verbatim>\<open>int,int\<close> and lie inside the image;
  every other segment is dropped without an error. The result is the filtered sequence of
  the specification. On a 100 by 100 image, \<^verbatim>\<open>10,10;200,10;50,90\<close> loses its second point
  and keeps \<open>[(10,10), (50,90)]\<close>; with fewer than three points left, the handler returns
  \<^verbatim>\<open>null\<close> and registers no shape.
\<close>

theorem polygon_xy_filtered:
  "polygon_xy img coords = spec_parsePolygon img coords
   \<and> polygon_xy img100 ''10,10;200,10;50,90'' = [(10, 10), (50, 90)]
   \<and> addShape_polygon img100 shps n ''10,10;200,10;50,90'' colour = (None, shps)
   \<and> (length (polygon_xy img coords) < 3 \<longrightarrow>
        addShape_polygon img shps n coords colour = (None, shps))"
  using polygon_xy_spec [of img coords] polygon_xy_scenario(1)
    addShape_polygon_scenario(1) [of shps n colour]
    addShape_polygon_None [of img coords shps n colour]
  by blast

theorem polygon_xy_filtered_witness:
  "polygon_xy img100 ''10,10;abc;50,90;7'' = [(10, 10), (50, 90)]
   \<and> spec_parsePolygon img100 ''10,10;abc;50,90;7'' = [(10, 10), (50, 90)]
   \<and> addShape_polygon img100 Map.empty 0 ''10,10;abc;50,90;7'' ''#FFFFFF'' = (None, Map.empty)"
proof -
  have xy: "polygon_xy img100 ''10,10;abc;50,90;7'' = [(10, 10), (50, 90)]"
    by code_simp
  note t = polygon_xy_filtered [where img = img100 and coords = "''10,10;abc;50,90;7''"
      and shps = Map.empty and n = 0 and colour = "''#FFFFFF''"]
  from t xy show ?thesis by simp
qed

text \<open>
  C9. When \<open>addShape_polygon\<close> accepts a geometry, the polygon it registers has as its
  points the whole geometry string with every \<^verbatim>\<open>,\<close> and \<^verbatim>\<open>;\<close> replaced by a space, so
  the segments that the first loop dropped are still in the drawn shape: \<^verbatim>\<open>200 10\<close>
  below. Only the returned anchor comes from the filtered points: it is the midpoint of
  their bounding box.
\<close>

theorem addShape_polygon_points:
  "(addShape_polygon img shps n coords colour = (Some a, shps') \<longrightarrow>
      shps' = shps(n \<mapsto> Polygon colour
                (map (\<lambda>c. if c = CHR '','' \<or> c = CHR '';'' then CHR '' '' else c) coords))
      \<and> a = (of_int (Min (fst ` set (polygon_xy img coords)) +
                      Max (fst ` set (polygon_xy img coords))) / 2,
              of_int (Min (snd ` set (polygon_xy img coords)) +
                      Max (snd ` set (polygon_xy img coords))) / 2))
   \<and> polygon_xy img100 ''10,10;200,10;50,90;20,35'' = [(10, 10), (50, 90), (20, 35)]
   \<and> addShape_polygon img100 shps n ''10,10;200,10;50,90;20,35'' colour =
       (Some (30, 50), shps(n \<mapsto> Polygon colour ''10 10 200 10 50 90 20 35''))"
  using addShape_polygon_Some(1,2) [of img shps n coords colour a shps']
    polygon_xy_scenario(2) addShape_polygon_scenario(2) [of shps n colour]
  by blast

theorem addShape_polygon_points_witness:
  "addShape_polygon img100 Map.empty 0 ''10,10;200,10;50,90;20,35'' ''#FFFFFF'' =
     (Some (30, 50), [0 \<mapsto> Polygon ''#FFFFFF'' ''10 10 200 10 50 90 20 35''])
   \<and> polygon_xy img100 ''10,10;200,10;50,90;20,35'' = [(10, 10), (50, 90), (20, 35)]
   \<and> (30, 50) = (rat_of_int (Min (fst ` set ([(10, 10), (50, 90), (20, 35)] :: (int \<times> int) list)) +
                     Max (fst ` set ([(10, 10), (50, 90), (20, 35)] :: (int \<times> int) list))) / 2,
                rat_of_int (Min (snd ` set ([(10, 10), (50, 90), (20, 35)] :: (int \<times> int) list)) +
                     Max (snd ` set ([(10, 10), (50, 90), (20, 35)] :: (int \<times> int) list))) / 2)"
proof -
  note t = addShape_polygon_points [where img = img100 and shps = Map.empty and n = 0
      and coords = "''10,10;200,10;50,90;20,35''" and colour = "''#FFFFFF''"
      and a = "(30, 50)"
      and shps' = "[0 \<mapsto> Polygon ''#FFFFFF'' ''10 10 200 10 50 90 20 35'']"]
  note r = t [THEN conjunct2, THEN conjunct2]
  note xy = t [THEN conjunct2, THEN conjunct1]
  note a = t [THEN conjunct1, THEN mp, OF r, THEN conjunct2]
  from a have "(30, 50) = (rat_of_int (Min (fst ` set ([(10, 10), (50, 90), (20, 35)] :: (int \<times> int) list)) +
                     Max (fst ` set ([(10, 10), (50, 90), (20, 35)] :: (int \<times> int) list))) / 2,
                rat_of_int (Min (snd ` set ([(10, 10), (50, 90), (20, 35)] :: (int \<times> int) list)) +
                     Max (snd ` set ([(10, 10), (50, 90), (20, 35)] :: (int \<times> int) list))) / 2)"
    by (simp only: xy)
  with r xy show ?thesis by (intro conjI)
qed

subsection \<open>Which geometry the handlers accept\<close>

lemma addShape_rectangle_Some:
  assumes "addShape_rectangle img shps n coords colour = (Some a, shps')"
  shows "\<exists>x y w h. shps' = shps(n \<mapsto> Rect w h x y colour) \<and> 0 \<le> x \<and> 0 \<le> y \<and> 0 \<le> w \<and> 0 \<le> h \<and>
           x + w \<le> width img \<and> y + h \<le> height img"
proof -
  from assms obtain p1 p2 p3 p4 where m: "rx_search rectangle_rx coords = Some [p1, p2, p3, p4]"
    by (auto simp: addShape_rectangle_def split: option.splits list.splits)
  let ?x = "int (digits_value p1)" and ?y = "int (digits_value p2)"
  let ?w = "int (digits_value p3)" and ?h = "int (digits_value p4)"
  from assms m have "shps' = shps(n \<mapsto> Rect ?w ?h ?x ?y colour)"
    "?x + ?w \<le> width img" "?y + ?h \<le> height img"
    by (auto simp: addShape_rectangle_def Let_def coordsInBgImg_jsint split: if_splits)
  then show ?thesis by (intro exI [of _ ?x] exI [of _ ?y] exI [of _ ?w] exI [of _ ?h]) simp
qed

lemma addShape_circle_Some:
  assumes "addShape_circle img shps n coords colour = (Some a, shps')"
  shows "\<exists>cx cy r. shps' = shps(n \<mapsto> Circle cx cy r colour) \<and> 0 \<le> r \<and>
           0 < cx - r \<and> cx - r \<le> width img \<and> 0 < cy - r \<and> cy - r \<le> height img"
proof -
  from assms obtain p1 p2 p3 where m: "rx_search circle_rx coords = Some [p1, p2, p3]"
    by (auto simp: addShape_circle_def split: option.splits list.splits)
  let ?x = "int (digits_value p1)" and ?y = "int (digits_value p2)"
  let ?r = "int (digits_value p3)"
  from assms m have "shps' = shps(n \<mapsto> Circle ?x ?y ?r colour)"
    "0 < ?x - ?r" "?x - ?r \<le> width img" "0 < ?y - ?r" "?y - ?r \<le> height img"
    by (auto simp: addShape_circle_def Let_def coordsInBgImg_jsint split: if_splits)
  then show ?thesis by (intro exI [of _ ?x] exI [of _ ?y] exI [of _ ?r]) simp
qed

lemma addShape_None_unchanged:
  "fst (addShape_rectangle img shps n coords colour) = None \<Longrightarrow>
     snd (addShape_rectangle img shps n coords colour) = shps"
  "fst (addShape_circle img shps n coords colour) = None \<Longrightarrow>
     snd (addShape_circle img shps n coords colour) = shps"
  "fst (addShape_polygon img shps n coords colour) = None \<Longrightarrow>
     snd (addShape_polygon img shps n coords colour) = shps"
  by (auto simp: addShape_rectangle_def addShape_circle_def addShape_polygon_def Let_def
      split: option.splits list.splits if_splits)

lemma addShape_circle_far_side:
  "addShape_circle img100 shps n ''90,90;50'' colour =
     (Some (90, 90), shps(n \<mapsto> Circle 90 90 50 colour))"
proof -
  have m: "rx_search circle_rx ''90,90;50'' = Some [''90'', ''90'', ''50'']"
    by code_simp
  have v: "digits_value ''90'' = 90" "digits_value ''50'' = 50"
    by code_simp+
  show ?thesis
    by (simp add: addShape_circle_def m v coordsInBgImg_jsint img100_size)
qed

text \<open>
  C3, as stated: whatever a handler accepts lies entirely inside the image, and geometry
  partly outside is rejected as a whole. The polygon handler does not reject a polygon
  for a vertex outside the image: it leaves that vertex out of the anchor computation
  and registers the polygon, with that vertex, when three vertices inside remain. On a
  100 by 100 image the polygon below is accepted with its vertex \<open>(200, 10)\<close>.
  (\<open>addShape_circle_far_side\<close> above shows a second case: the circle handler tests the
  upper left corner of the circle's bounding box only.)
\<close>

theorem addShape_polygon_accepts_outside:
  "addShape_polygon img100 Map.empty 0 ''10,10;200,10;50,90;20,35'' ''#FFFFFF'' =
     (Some (30, 50), [0 \<mapsto> Polygon ''#FFFFFF'' ''10 10 200 10 50 90 20 35''])
   \<and> \<not> in_image img100 (200, 10)"
  using addShape_polygon_scenario(2) [of Map.empty 0 "''#FFFFFF''"]
  by (simp add: in_image_def img100_size)

text \<open>
  C3, amended: an accepted rectangle lies entirely inside the image; an accepted circle
  has the upper left corner of its bounding box inside the image; a polygon is accepted
  exactly when at least three of its segments are well-formed points inside the image.
  A handler that returns \<^verbatim>\<open>null\<close> registers nothing: geometry is rejected as a whole,
  never clipped.
\<close>

theorem addShape_bounds:
  "(addShape_rectangle img shps n coords colour = (Some a, shps') \<longrightarrow>
      (\<exists>x y w h. shps' = shps(n \<mapsto> Rect w h x y colour) \<and> 0 \<le> x \<and> 0 \<le> y \<and> 0 \<le> w \<and> 0 \<le> h \<and>
         x + w \<le> width img \<and> y + h \<le> height img))
   \<and> (addShape_circle img shps n coords colour = (Some a, shps') \<longrightarrow>
      (\<exists>cx cy r. shps' = shps(n \<mapsto> Circle cx cy r colour) \<and> 0 \<le> r \<and>
         0 < cx - r \<and> cx - r \<le> width img \<and> 0 < cy - r \<and> cy - r \<le> height img))
   \<and> (fst (addShape_polygon img shps n coords colour) \<noteq> None) =
       (3 \<le> length (polygon_xy img coords))
   \<and> (\<forall>p\<in>set (polygon_xy img coords). in_image img p)
   \<and> (fst (addShape_rectangle img shps n coords colour) = None \<longrightarrow>
        snd (addShape_rectangle img shps n coords colour) = shps)
   \<and> (fst (addShape_circle img shps n coords colour) = None \<longrightarrow>
        snd (addShape_circle img shps n coords colour) = shps)
   \<and> (fst (addShape_polygon img shps n coords colour) = None \<longrightarrow>
        snd (addShape_polygon img shps n coords colour) = shps)"
proof (intro conjI impI ballI)
  assume "addShape_rectangle img shps n coords colour = (Some a, shps')"
  then show "\<exists>x y w h. shps' = shps(n \<mapsto> Rect w h x y colour) \<and> 0 \<le> x \<and> 0 \<le> y \<and> 0 \<le> w \<and> 0 \<le> h \<and>
         x + w \<le> width img \<and> y + h \<le> height img"
    by (rule addShape_rectangle_Some)
next
  assume "addShape_circle img shps n coords colour = (Some a, shps')"
  then show "\<exists>cx cy r. shps' = shps(n \<mapsto> Circle cx cy r colour) \<and> 0 \<le> r \<and>
         0 < cx - r \<and> cx - r \<le> width img \<and> 0 < cy - r \<and> cy - r \<le> height img"
    by (rule addShape_circle_Some)
next
  show "(fst (addShape_polygon img shps n coords colour) \<noteq> None) =
       (3 \<le> length (polygon_xy img coords))"
    by (cases "2 < length (polygon_xy img coords)")
       (simp_all add: addShape_polygon_def Let_def)
next
  fix p assume "p \<in> set (polygon_xy img coords)"
  then show "in_image img p" by (rule polygon_xy_in_image)
qed (rule addShape_None_unchanged; assumption)+

theorem addShape_bounds_witness:
  "fst (addShape_rectangle img100 Map.empty 0 ''90,90;20,5'' ''#FFFFFF'') = None
   \<and> snd (addShape_rectangle img100 Map.empty 0 ''90,90;20,5'' ''#FFFFFF'') = Map.empty
   \<and> addShape_rectangle img100 Map.empty 0 ''10,10;5,7'' ''#FFFFFF'' =
       (Some (25 / 2, 27 / 2), [0 \<mapsto> Rect 5 7 10 10 ''#FFFFFF''])
   \<and> (\<exists>x y w h. [(0::nat) \<mapsto> Rect 5 7 10 10 ''#FFFFFF''] = [0 \<mapsto> Rect w h x y ''#FFFFFF''] \<and>
         0 \<le> x \<and> 0 \<le> y \<and> 0 \<le> w \<and> 0 \<le> h \<and> x + w \<le> width img100 \<and> y + h \<le> height img100)"
proof -
  have m: "rx_search rectangle_rx ''90,90;20,5'' = Some [''90'', ''90'', ''20'', ''5'']"
    "rx_search rectangle_rx ''10,10;5,7'' = Some [''10'', ''10'', ''5'', ''7'']"
    by code_simp+
  have v: "digits_value ''90'' = 90" "digits_value ''20'' = 20" "digits_value ''5'' = 5"
    "digits_value ''10'' = 10" "digits_value ''7'' = 7"
    by code_simp+
  have none: "fst (addShape_rectangle img100 Map.empty 0 ''90,90;20,5'' ''#FFFFFF'') = None"
    by (simp add: addShape_rectangle_def m v coordsInBgImg_jsint img100_size)
  have some: "addShape_rectangle img100 Map.empty 0 ''10,10;5,7'' ''#FFFFFF'' =
       (Some (25 / 2, 27 / 2), [0 \<mapsto> Rect 5 7 10 10 ''#FFFFFF''])"
    by (simp add: addShape_rectangle_def m v coordsInBgImg_jsint img100_size)
  note t1 = addShape_bounds [where img = img100 and shps = Map.empty and n = 0
      and coords = "''90,90;20,5''" and colour = "''#FFFFFF''"]
  note t2 = addShape_bounds [where img = img100 and shps = Map.empty and n = 0
      and coords = "''10,10;5,7''" and colour = "''#FFFFFF''" and a = "(25 / 2, 27 / 2)"
      and shps' = "[0 \<mapsto> Rect 5 7 10 10 ''#FFFFFF'']"]
  note u = t1 [THEN conjunct2, THEN conjunct2, THEN conjunct2, THEN conjunct2, THEN conjunct1,
      THEN mp, OF none]
  note b = t2 [THEN conjunct1, THEN mp, OF some]
  show ?thesis
    apply (intro conjI)
       apply (rule none)
      apply (rule u)
     apply (rule some)
    apply (rule b)
    done
qed

subsection \<open>Saving the coordinates of a choice\<close>






















end
